theory Spec2Isabelle
  imports Complex_Main
begin

section \<open>The FedEx server policy (federatedscope/autotune/fedex/server.py)\<close>

text \<open>
  The bandit policy of \<^verbatim>\<open>FedExServer\<close>: its construction, \<^verbatim>\<open>entropy\<close>, \<^verbatim>\<open>mle\<close>,
  \<^verbatim>\<open>sample\<close> and \<^verbatim>\<open>update_policy\<close>.

  Numbers. A numpy \<^verbatim>\<open>float64\<close> array is a list of reals and every arithmetic operation
  is the exact real one: rounding, overflow and underflow are not modelled. numpy does not
  raise on a division by zero or on the square root of a negative number, it goes on with
  \<^verbatim>\<open>inf\<close> or \<^verbatim>\<open>nan\<close>; the reals have no such values, so the model stops such a run
  with the outcome \<open>NonFinite\<close> at the operation that would produce one.

  Exceptions. Every Python exception the modelled code can raise is a value of \<open>error\<close>.
  \<^verbatim>\<open>update_policy\<close> mutates the server before it raises, so its outcome carries the
  server as the exception leaves it.
\<close>

subsection \<open>Errors and outcomes\<close>

datatype error =
    IndexError | NameError | NotImplementedError | AttributeError | ValueError | NonFinite

datatype 'a outcome = Returned 'a | Raised error 'a

fun state_of :: "'a outcome \<Rightarrow> 'a" where
  "state_of (Returned s) = s"
| "state_of (Raised e s) = s"

subsection \<open>Configuration, server state, feedback\<close>

text \<open>The options read from \<^verbatim>\<open>config.hpo.fedex\<close>.\<close>

record config =
  flatten_ss :: bool
  num_arms :: nat
  diff :: bool
  gamma :: real
  sched :: string
  cutoff :: real

text \<open>
  The attributes of the server that the policy uses. The dictionary \<^verbatim>\<open>self._trace\<close> has
  the four fixed keys \<^verbatim>\<open>global\<close>, \<^verbatim>\<open>refine\<close>, \<^verbatim>\<open>entropy\<close> and \<^verbatim>\<open>mle\<close>: one field each.
\<close>

record 'c fedex =
  self_cfsp :: "'c list list"
  self_eta0 :: "real list"
  self_z :: "real list list"
  self_theta :: "real list list"
  self_store :: "real list"
  trace_global :: "real list"
  trace_refine :: "real list"
  trace_entropy :: "real list"
  trace_mle :: "real list"
  self_stop_exploration :: bool

text \<open>
  A feedback tuple \<^verbatim>\<open>tp\<close>: \<^verbatim>\<open>tp[0]\<close> the sample size, \<^verbatim>\<open>tp[1]\<close> the arms (one index per
  aspect), and the numbers from position 2 on. \<^verbatim>\<open>check_and_move_on\<close> builds tuples of
  three elements \<^verbatim>\<open>(sample_size, arms, loss)\<close>, for which \<open>tp_rest\<close> is \<open>[loss]\<close>;
  \<^verbatim>\<open>update_policy\<close> reads \<^verbatim>\<open>tp[2]\<close> only, and on a tuple of two elements that raises
  IndexError.
\<close>

datatype feedback = Feedback (tp0: real) (tp1: "nat list") (tp_rest: "real list")

definition tp2 :: "feedback \<Rightarrow> error + real" where
  "tp2 tp = (case tp_rest tp of [] \<Rightarrow> Inl IndexError | x # _ \<Rightarrow> Inr x)"

fun all_tp2 :: "feedback list \<Rightarrow> error + real list" where
  "all_tp2 [] = Inr []"
| "all_tp2 (tp # tps) =
     (case tp2 tp of Inl e \<Rightarrow> Inl e
      | Inr x \<Rightarrow> (case all_tp2 tps of Inl e \<Rightarrow> Inl e | Inr xs \<Rightarrow> Inr (x # xs)))"

subsection \<open>numpy and scipy operations\<close>

definition np_inner :: "real list \<Rightarrow> real list \<Rightarrow> real" where
  "np_inner xs ys = sum_list (map2 (*) xs ys)"

text \<open>\<^verbatim>\<open>a -= b\<close> on one-dimensional arrays: \<^verbatim>\<open>b\<close> has the length of \<^verbatim>\<open>a\<close> or is
  broadcast from length 1; any other shape raises ValueError.\<close>

definition np_isub :: "real list \<Rightarrow> real list \<Rightarrow> error + real list" where
  "np_isub a b =
     (if length b = length a then Inr (map2 (-) a b)
      else if length b = 1 then Inr (map (\<lambda>x. x - hd b) a)
      else Inl ValueError)"

text \<open>\<^verbatim>\<open>theta.max()\<close>: the maximum of an array, ValueError on an empty one.\<close>

definition np_max :: "real list \<Rightarrow> error + real" where
  "np_max xs = (case xs of [] \<Rightarrow> Inl ValueError | x # ys \<Rightarrow> Inr (fold max ys x))"



text \<open>\<^verbatim>\<open>scipy.special.logsumexp\<close> takes the maximum of its argument first, which raises
  ValueError on an empty array.\<close>

definition logsumexp :: "real list \<Rightarrow> error + real" where
  "logsumexp a = (if a = [] then Inl ValueError else Inr (ln (sum_list (map exp a))))"

subsection \<open>discounted_mean\<close>

definition discounted_mean :: "real list \<Rightarrow> real \<Rightarrow> error + real" where
  "discounted_mean trace factor =
     (let weight = map (\<lambda>k. factor ^ k) (rev [0..<length trace])
      in if sum_list weight = 0 then Inl NonFinite
         else Inr (np_inner trace weight / sum_list weight))"

subsection \<open>entropy and mle\<close>

text \<open>\<^verbatim>\<open>itertools.product\<close> of lists is \<^const>\<open>product_lists\<close>: the tuples in
  lexicographic order, the last position running fastest.\<close>

definition entropy :: "'c fedex \<Rightarrow> real" where
  "entropy st =
     foldl (\<lambda>e probs. e - prod_list probs * ln (prod_list probs)) 0
       (product_lists (map (filter (\<lambda>p. 0 < p)) (self_theta st)))"

fun all_max :: "real list list \<Rightarrow> error + real list" where
  "all_max [] = Inr []"
| "all_max (theta # thetas) =
     (case np_max theta of Inl e \<Rightarrow> Inl e
      | Inr m \<Rightarrow> (case all_max thetas of Inl e \<Rightarrow> Inl e | Inr ms \<Rightarrow> Inr (m # ms)))"

definition mle :: "'c fedex \<Rightarrow> error + real" where
  "mle st = (case all_max (self_theta st) of Inl e \<Rightarrow> Inl e | Inr ms \<Rightarrow> Inr (prod_list ms))"

subsection \<open>Construction\<close>

text \<open>
  \<^verbatim>\<open>__init__\<close>, up to the call of the base class. \<^verbatim>\<open>random_search\<close> is imported from
  another module: it is a parameter, applied to \<^verbatim>\<open>num_arms\<close>. With \<^verbatim>\<open>flatten_ss\<close> off
  the branch is \<^verbatim>\<open>pass\<close>, so \<^verbatim>\<open>self._cfsp\<close> is never assigned and the next line, which
  reads it, raises AttributeError. With an empty candidate list \<^verbatim>\<open>mle\<close> raises
  ValueError, so the values computed from \<^verbatim>\<open>np.log(0)\<close> are never kept.
\<close>

definition fedex_init :: "config \<Rightarrow> (nat \<Rightarrow> 'c list) \<Rightarrow> error + 'c fedex" where
  "fedex_init cfg random_search =
     (if flatten_ss cfg then
        (let cfsp = [random_search (num_arms cfg)];
             sizes = map length cfsp;
             eta0 = map (\<lambda>size. sqrt (2 * ln (real size))) sizes;
             z = map (\<lambda>size. replicate size (- ln (real size))) sizes;
             theta = map (map exp) z;
             st = \<lparr> self_cfsp = cfsp, self_eta0 = eta0, self_z = z, self_theta = theta,
                    self_store = map (\<lambda>_. 0) sizes,
                    trace_global = [], trace_refine = [], trace_entropy = [],
                    trace_mle = [], self_stop_exploration = False \<rparr>
         in case mle st of
              Inl e \<Rightarrow> Inl e
            | Inr m \<Rightarrow> Inr (st\<lparr> trace_entropy := [entropy st], trace_mle := [m] \<rparr>))
      else Inl AttributeError)"

subsection \<open>sample\<close>




subsection \<open>update_policy\<close>

text \<open>
  Lines 170 to 183: the arms, the normalised weights, the two loss arrays (both read
  \<^verbatim>\<open>tp[2]\<close>) and the baseline.
\<close>

definition normalised_weight :: "feedback list \<Rightarrow> error + real list" where
  "normalised_weight feedbacks =
     (let weight = map tp0 feedbacks
      in if weight \<noteq> [] \<and> sum_list weight = 0 then Inl NonFinite
         else Inr (map (\<lambda>w. w / sum_list weight) weight))"

definition baseline_of :: "config \<Rightarrow> 'c fedex \<Rightarrow> error + real" where
  "baseline_of cfg st =
     (if trace_refine st \<noteq> [] then
        (case (if diff cfg then np_isub (trace_refine st) (trace_global st)
               else Inr (trace_refine st)) of
           Inl e \<Rightarrow> Inl e
         | Inr trace \<Rightarrow> discounted_mean trace (gamma cfg))
      else Inr 0)"

text \<open>\<^verbatim>\<open>after - before if self._cfg.hpo.fedex.diff else after\<close>\<close>

definition signal :: "config \<Rightarrow> real list \<Rightarrow> real list \<Rightarrow> real list" where
  "signal cfg before after = (if diff cfg then map2 (-) after before else after)"

text \<open>
  The inner loop of lines 193 to 197 for aspect \<open>i\<close>, over the zipped
  \<^verbatim>\<open>(idx, s, w)\<close>: \<^verbatim>\<open>grad[idx[i]] += w * (s - baseline) / theta[idx[i]]\<close>. The arms
  are the indices that \<^verbatim>\<open>sample\<close> returns, so they are natural numbers; an arm that
  is out of range raises IndexError, and a probability that is exactly zero makes the
  quotient infinite or undefined.
\<close>

fun gradient ::
  "nat \<Rightarrow> real list \<Rightarrow> real \<Rightarrow> (nat list \<times> real \<times> real) list \<Rightarrow> real list \<Rightarrow> error + real list"
where
  "gradient i theta baseline [] grad = Inr grad"
| "gradient i theta baseline ((idx, s, w) # rest) grad =
     (if i < length idx \<and> idx ! i < length grad \<and> idx ! i < length theta then
        (if theta ! (idx ! i) = 0 then Inl NonFinite
         else gradient i theta baseline rest
                (grad[idx ! i := grad ! (idx ! i) + w * (s - baseline) / theta ! (idx ! i)]))
      else Inl IndexError)"

text \<open>
  The step schedule of lines 198 to 213: the denominator, or the exception, and
  \<^verbatim>\<open>self._store\<close> as the branch leaves it. The module never imports or defines
  \<^verbatim>\<open>norm\<close>, so evaluating \<^verbatim>\<open>norm(grad, float('inf'))\<close> raises NameError; in the
  \<^verbatim>\<open>adaptive\<close> branch \<^verbatim>\<open>self._store[i]\<close> is read before that.
\<close>

datatype denom = Finite real | Infinite

definition schedule ::
  "config \<Rightarrow> nat \<Rightarrow> real list \<Rightarrow> real list \<Rightarrow> (error + denom) \<times> real list" where
  "schedule cfg i grad store =
     (if sched cfg = ''adaptive'' then
        (Inl (if i < length store then NameError else IndexError), store)
      else if sched cfg = ''aggressive'' then
        (if list_all (\<lambda>g. g = 0) grad then Inr (Finite 1) else Inl NameError, store)
      else if sched cfg = ''auto'' then
        (if i < length store then
           (let store' = store[i := store ! i + 1]
            in (if store' ! i < 0 then Inl NonFinite else Inr (Finite (sqrt (store' ! i))),
                store'))
         else (Inl IndexError, store))
      else if sched cfg = ''constant'' then (Inr (Finite 1), store)
      else if sched cfg = ''scale'' then
        (if 1 < length grad then Inr (Finite (1 / sqrt (2 * ln (real (length grad)))))
         else Inr Infinite, store)
      else (Inl NotImplementedError, store))"

text \<open>\<^verbatim>\<open>eta = self._eta0[i] / denom\<close>\<close>

definition step_size :: "real list \<Rightarrow> nat \<Rightarrow> denom \<Rightarrow> error + real" where
  "step_size eta0 i d =
     (if i < length eta0 then
        (case d of
           Finite x \<Rightarrow> if x = 0 then Inl NonFinite else Inr (eta0 ! i / x)
         | Infinite \<Rightarrow> Inr 0)
      else Inl IndexError)"

text \<open>
  Lines 215 to 217. \<^verbatim>\<open>z\<close> is the array object held in \<^verbatim>\<open>self._z[i]\<close>, so both
  \<^verbatim>\<open>z -= ...\<close> change \<^verbatim>\<open>self._z[i]\<close> in place; \<^verbatim>\<open>self._theta[i]\<close> gets a new array.
\<close>

definition apply_step :: "real \<Rightarrow> real list \<Rightarrow> nat \<Rightarrow> 'c fedex \<Rightarrow> 'c fedex outcome" where
  "apply_step eta grad i st =
     (let z1 = map2 (\<lambda>zk gk. zk - eta * gk) (self_z st ! i) grad;
          st1 = st\<lparr> self_z := (self_z st)[i := z1] \<rparr> in
      case logsumexp z1 of
        Inl e \<Rightarrow> Raised e st1
      | Inr lse \<Rightarrow>
          (let z2 = map (\<lambda>zk. zk - lse) z1 in
           Returned (st1\<lparr> self_z := (self_z st1)[i := z2],
                          self_theta := (self_theta st1)[i := map exp z2] \<rparr>)))"

text \<open>One round of the loop of line 191, for aspect \<open>i\<close>.\<close>

definition update_aspect ::
  "config \<Rightarrow> nat list list \<Rightarrow> real list \<Rightarrow> real list \<Rightarrow> real \<Rightarrow> nat \<Rightarrow> 'c fedex
     \<Rightarrow> 'c fedex outcome" where
  "update_aspect cfg index sig weight baseline i st =
     (case gradient i (self_theta st ! i) baseline (zip index (zip sig weight))
             (replicate (length (self_z st ! i)) 0) of
        Inl e \<Rightarrow> Raised e st
      | Inr grad \<Rightarrow>
          (case schedule cfg i grad (self_store st) of
             (Inl e, store') \<Rightarrow> Raised e (st\<lparr> self_store := store' \<rparr>)
           | (Inr d, store') \<Rightarrow>
               (case step_size (self_eta0 st) i d of
                  Inl e \<Rightarrow> Raised e (st\<lparr> self_store := store' \<rparr>)
                | Inr eta \<Rightarrow> apply_step eta grad i (st\<lparr> self_store := store' \<rparr>))))"

text \<open>The loop over \<^verbatim>\<open>enumerate(zip(self._z, self._theta))\<close>: the aspects in order, up to
  the first exception.\<close>

fun update_loop ::
  "config \<Rightarrow> nat list list \<Rightarrow> real list \<Rightarrow> real list \<Rightarrow> real \<Rightarrow> nat list \<Rightarrow> 'c fedex
     \<Rightarrow> 'c fedex outcome" where
  "update_loop cfg index sig weight baseline [] st = Returned st"
| "update_loop cfg index sig weight baseline (i # is) st =
     (case update_aspect cfg index sig weight baseline i st of
        Returned st' \<Rightarrow> update_loop cfg index sig weight baseline is st'
      | Raised e st' \<Rightarrow> Raised e st')"

text \<open>Lines 219 to 222: the two traces of the new policy and the cutoff.\<close>

definition finish_round :: "config \<Rightarrow> 'c fedex \<Rightarrow> 'c fedex outcome" where
  "finish_round cfg st =
     (let st1 = st\<lparr> trace_entropy := trace_entropy st @ [entropy st] \<rparr> in
      case mle st1 of
        Inl e \<Rightarrow> Raised e st1
      | Inr m \<Rightarrow>
          (let st2 = st1\<lparr> trace_mle := trace_mle st1 @ [m] \<rparr> in
           Returned (if last (trace_entropy st2) < cutoff cfg
                     then st2\<lparr> self_stop_exploration := True \<rparr> else st2)))"

text \<open>Lines 170 to 183 together: what the rest of \<^verbatim>\<open>update_policy\<close> reads, as
  \<open>(index, weight, before, after, baseline)\<close>.\<close>

definition policy_inputs ::
  "config \<Rightarrow> feedback list \<Rightarrow> 'c fedex
     \<Rightarrow> error + (nat list list \<times> real list \<times> real list \<times> real list \<times> real)" where
  "policy_inputs cfg feedbacks st =
     (case normalised_weight feedbacks of
        Inl e \<Rightarrow> Inl e
      | Inr weight \<Rightarrow>
      (case all_tp2 feedbacks of
        Inl e \<Rightarrow> Inl e
      | Inr before \<Rightarrow>
      (case all_tp2 feedbacks of
        Inl e \<Rightarrow> Inl e
      | Inr after \<Rightarrow>
      (case baseline_of cfg st of
        Inl e \<Rightarrow> Inl e
      | Inr baseline \<Rightarrow> Inr (map tp1 feedbacks, weight, before, after, baseline)))))"

text \<open>Lines 191 to 222: the loop over the aspects, then the traces and the cutoff.\<close>

definition explore ::
  "config \<Rightarrow> nat list list \<Rightarrow> real list \<Rightarrow> real list \<Rightarrow> real \<Rightarrow> 'c fedex \<Rightarrow> 'c fedex outcome"
where
  "explore cfg index sig weight baseline st =
     (case update_loop cfg index sig weight baseline
             [0..<min (length (self_z st)) (length (self_theta st))] st of
        Raised e st' \<Rightarrow> Raised e st'
      | Returned st' \<Rightarrow> finish_round cfg st')"

definition update_policy :: "config \<Rightarrow> feedback list \<Rightarrow> 'c fedex \<Rightarrow> 'c fedex outcome" where
  "update_policy cfg feedbacks st =
     (case policy_inputs cfg feedbacks st of
        Inl e \<Rightarrow> Raised e st
      | Inr (index, weight, before, after, baseline) \<Rightarrow>
          (let st1 = st\<lparr> trace_global := trace_global st @ [np_inner before weight],
                         trace_refine := trace_refine st @ [np_inner after weight] \<rparr> in
           if self_stop_exploration st1 then
             Returned (st1\<lparr> trace_entropy := trace_entropy st1 @ [0],
                            trace_mle := trace_mle st1 @ [1] \<rparr>)
           else explore cfg index (signal cfg before after) weight baseline st1))"

subsection \<open>Notions used in the statements\<close>

text \<open>The exception a call ended with, if any.\<close>

fun raised :: "'a outcome \<Rightarrow> error option" where
  "raised (Returned s) = None"
| "raised (Raised e s) = Some e"

text \<open>What the loop over the aspects leaves as it is: the traces, the flag, the
  candidates, the base step sizes and the number of aspects.\<close>

definition frame :: "'c fedex \<Rightarrow> 'c fedex \<Rightarrow> bool" where
  "frame st st' \<longleftrightarrow>
     trace_global st' = trace_global st \<and> trace_refine st' = trace_refine st \<and>
     trace_entropy st' = trace_entropy st \<and> trace_mle st' = trace_mle st \<and>
     self_stop_exploration st' = self_stop_exploration st \<and>
     self_cfsp st' = self_cfsp st \<and> self_eta0 st' = self_eta0 st \<and>
     length (self_z st') = length (self_z st) \<and>
     length (self_theta st') = length (self_theta st) \<and>
     length (self_store st') = length (self_store st)"


text \<open>
  The invariant of the server: the probabilities are the exponentials of \<^verbatim>\<open>_z\<close>, every
  aspect has at least one arm and as many candidates as arms, one accumulator (not
  negative) and one base step size per aspect, and the two loss traces have one length.
  A feedback tuple fits a server when its sample size is positive, it has a loss, and it
  names one arm of each aspect.
\<close>

definition well_formed :: "'c fedex \<Rightarrow> bool" where
  "well_formed st \<longleftrightarrow>
     self_theta st = map (map exp) (self_z st) \<and>
     list_all (\<lambda>z. z \<noteq> []) (self_z st) \<and>
     map length (self_cfsp st) = map length (self_z st) \<and>
     length (self_store st) = length (self_z st) \<and>
     list_all (\<lambda>s. 0 \<le> s) (self_store st) \<and>
     length (self_eta0 st) = length (self_z st) \<and>
     length (trace_global st) = length (trace_refine st)"

definition valid_feedback :: "'c fedex \<Rightarrow> feedback \<Rightarrow> bool" where
  "valid_feedback st tp \<longleftrightarrow>
     0 < tp0 tp \<and> tp_rest tp \<noteq> [] \<and> list_all2 (\<lambda>a z. a < length z) (tp1 tp) (self_z st)"

text \<open>The schedule names that \<^verbatim>\<open>update_policy\<close> tests for.\<close>

definition known_schedules :: "string list" where
  "known_schedules = [''adaptive'', ''aggressive'', ''auto'', ''constant'', ''scale'']"

text \<open>
  For the entropy: a probability vector; the tuples that \<^verbatim>\<open>entropy\<close> runs over (one
  positive entry of each aspect); a joint assignment (one arm of each aspect) and its
  probability under the product distribution.
\<close>

definition distribution :: "real list \<Rightarrow> bool" where
  "distribution theta \<longleftrightarrow> list_all (\<lambda>p. 0 \<le> p) theta \<and> sum_list theta = 1"

definition assignment :: "real list list \<Rightarrow> nat list \<Rightarrow> bool" where
  "assignment thetas idx \<longleftrightarrow> list_all2 (\<lambda>theta j. j < length theta) thetas idx"

definition joint_prob :: "real list list \<Rightarrow> nat list \<Rightarrow> real" where
  "joint_prob thetas idx = prod_list (map2 (\<lambda>theta j. theta ! j) thetas idx)"

definition support :: "real list list \<Rightarrow> real list list" where
  "support thetas = product_lists (map (filter (\<lambda>p. 0 < p)) thetas)"

text \<open>Aspect \<open>i\<close> is normalised: its probabilities are the exponentials of its
  \<^verbatim>\<open>_z\<close> vector and sum to 1, that is, \<^verbatim>\<open>logsumexp\<close> of the vector is 0.\<close>

definition normalised :: "'c fedex \<Rightarrow> nat \<Rightarrow> bool" where
  "normalised st i \<longleftrightarrow>
     self_theta st ! i = map exp (self_z st ! i) \<and>
     sum_list (map exp (self_z st ! i)) = 1 \<and>
     logsumexp (self_z st ! i) = Inr 0"

text \<open>The schedules whose branch does not call the undefined \<^verbatim>\<open>norm\<close>.\<close>

definition working_schedules :: "string list" where
  "working_schedules = [''auto'', ''constant'', ''scale'']"

text \<open>The gradient vector that \<^verbatim>\<open>update_policy\<close> builds for aspect \<open>i\<close> in a round:
  the inputs of lines 170 to 183, then the inner loop of lines 192 to 197.\<close>

definition round_gradient :: "config \<Rightarrow> feedback list \<Rightarrow> 'c fedex \<Rightarrow> nat \<Rightarrow> error + real list" where
  "round_gradient cfg feedbacks st i =
     (case policy_inputs cfg feedbacks st of
        Inl e \<Rightarrow> Inl e
      | Inr (index, weight, before, after, baseline) \<Rightarrow>
          gradient i (self_theta st ! i) baseline (zip index (zip (signal cfg before after) weight))
            (replicate (length (self_z st ! i)) 0))"

text \<open>The server after a sequence of calls of \<^verbatim>\<open>update_policy\<close>, each on the server
  as the call before it left it, whether that call returned or raised.\<close>

fun rounds :: "config \<Rightarrow> feedback list list \<Rightarrow> 'c fedex \<Rightarrow> 'c fedex" where
  "rounds cfg [] st = st"
| "rounds cfg (fbs # batches) st = rounds cfg batches (state_of (update_policy cfg fbs st))"

subsection \<open>Example inputs\<close>

text \<open>A configuration with three arms, the schedule and the difference option left
  open; a search that returns the candidates \<open>0, \<dots>, n - 1\<close>; and the server that the
  constructor builds from them.\<close>

definition example_cfg :: "string \<Rightarrow> bool \<Rightarrow> config" where
  "example_cfg s d =
     \<lparr> flatten_ss = True, num_arms = 3, diff = d, gamma = 1, sched = s, cutoff = 0 \<rparr>"

definition example_search :: "nat \<Rightarrow> nat list" where
  "example_search n = [0..<n]"

definition uniform3 :: "nat fedex" where
  "uniform3 =
     \<lparr> self_cfsp = [[0, 1, 2]], self_eta0 = [sqrt (2 * ln 3)],
       self_z = [[- ln 3, - ln 3, - ln 3]],
       self_theta = [[exp (- ln 3), exp (- ln 3), exp (- ln 3)]],
       self_store = [0], trace_global = [], trace_refine = [],
       trace_entropy = [3 * (ln 3 * exp (- ln 3))],
       trace_mle = [exp (- ln 3)], self_stop_exploration = False \<rparr>"

text \<open>A well-formed server whose vector \<^verbatim>\<open>_z\<close> is not normalised: its exponentials
  sum to more than 1.\<close>

definition skew3 :: "nat fedex" where
  "skew3 =
     \<lparr> self_cfsp = [[0, 1, 2]], self_eta0 = [sqrt (2 * ln 3)],
       self_z = [[0, 1, 2]],
       self_theta = [[exp 0, exp 1, exp 2]],
       self_store = [0], trace_global = [], trace_refine = [],
       trace_entropy = [], trace_mle = [], self_stop_exploration = False \<rparr>"

text \<open>A server whose exploration has stopped.\<close>

definition frozen3 :: "nat fedex" where
  "frozen3 =
     \<lparr> self_cfsp = [[0, 1, 2]], self_eta0 = [sqrt (2 * ln 3)],
       self_z = [[ln (1/4), ln (1/2), ln (1/4)]],
       self_theta = [[1/4, 1/2, 1/4]],
       self_store = [1], trace_global = [2], trace_refine = [2],
       trace_entropy = [3 * (ln 3 * exp (- ln 3)), 1],
       trace_mle = [exp (- ln 3), 1/2], self_stop_exploration = True \<rparr>"

section \<open>Properties\<close>

subsection \<open>What each step leaves unchanged\<close>

lemma schedule_length: "length (snd (schedule cfg i grad store)) = length store"
  by (simp add: schedule_def Let_def)

lemma frame_store:
  "length store' = length (self_store st) \<Longrightarrow> frame st (st\<lparr> self_store := store' \<rparr>)"
  by (simp add: frame_def)

lemma frame_refl: "frame a a"
  by (simp add: frame_def)

lemma frame_trans: "frame a b \<Longrightarrow> frame b c \<Longrightarrow> frame a c"
  by (simp add: frame_def)

lemma apply_step_frame: "frame st (state_of (apply_step eta grad i st))"
  by (simp add: frame_def apply_step_def Let_def split: sum.split)

lemma update_aspect_frame: "frame st (state_of (update_aspect cfg index sg w b i st))"
proof -
  let ?g = "gradient i (self_theta st ! i) b (zip index (zip sg w))
              (replicate (length (self_z st ! i)) 0)"
  show ?thesis
  proof (cases ?g)
    case (Inl e)
    then show ?thesis by (simp add: update_aspect_def frame_refl)
  next
    case (Inr grad)
    obtain r store' where s: "schedule cfg i grad (self_store st) = (r, store')"
      by (cases "schedule cfg i grad (self_store st)")
    have l: "length store' = length (self_store st)"
      using schedule_length[of cfg i grad "self_store st"] by (simp add: s)
    note f = frame_store[OF l]
    show ?thesis
    proof (cases r)
      case (Inl e)
      with Inr s f show ?thesis by (simp add: update_aspect_def)
    next
      case d: (Inr d)
      show ?thesis
      proof (cases "step_size (self_eta0 st) i d")
        case (Inl e)
        with Inr s f d show ?thesis by (simp add: update_aspect_def)
      next
        case eta: (Inr eta)
        have "frame st (state_of (apply_step eta grad i (st\<lparr> self_store := store' \<rparr>)))"
          using f apply_step_frame by (rule frame_trans)
        with Inr s d eta show ?thesis by (simp add: update_aspect_def)
      qed
    qed
  qed
qed

lemma update_loop_frame: "frame st (state_of (update_loop cfg index sg w b is st))"
proof (induction "is" arbitrary: st)
  case Nil
  show ?case by (simp add: frame_refl)
next
  case (Cons i "is")
  show ?case
  proof (cases "update_aspect cfg index sg w b i st")
    case (Returned st')
    with update_aspect_frame[of st cfg index sg w b i] have "frame st st'" by simp
    with Cons.IH[of st'] Returned show ?thesis by (auto intro: frame_trans)
  next
    case (Raised e st')
    with update_aspect_frame[of st cfg index sg w b i] show ?thesis by simp
  qed
qed

subsection \<open>The inputs of a round\<close>

lemma all_tp2_ok:
  "list_all (\<lambda>tp. tp_rest tp \<noteq> []) fbs \<Longrightarrow> all_tp2 fbs = Inr (map (\<lambda>tp. hd (tp_rest tp)) fbs)"
  by (induction fbs) (auto simp: tp2_def split: sum.splits list.splits)

lemma all_tp2_InrD:
  "all_tp2 fbs = Inr xs \<Longrightarrow> list_all (\<lambda>tp. tp_rest tp \<noteq> []) fbs \<and> xs = map (\<lambda>tp. hd (tp_rest tp)) fbs"
  by (induction fbs arbitrary: xs) (auto simp: tp2_def split: sum.splits list.splits)

lemma sum_list_pos_real: "list_all (\<lambda>x. 0 < x) xs \<Longrightarrow> xs \<noteq> [] \<Longrightarrow> 0 < sum_list (xs :: real list)"
  by (induction xs) (auto simp: add_pos_nonneg sum_list_nonneg list_all_iff less_imp_le)

lemma normalised_weight_ok:
  assumes "list_all (\<lambda>tp. 0 < tp0 tp) fbs"
  shows "normalised_weight fbs = Inr (map (\<lambda>tp. tp0 tp / sum_list (map tp0 fbs)) fbs)"
proof -
  have "list_all (\<lambda>x. 0 < x) (map tp0 fbs)" using assms by (simp add: list_all_iff)
  then have "fbs \<noteq> [] \<Longrightarrow> sum_list (map tp0 fbs) \<noteq> 0"
    using sum_list_pos_real[of "map tp0 fbs"] by auto
  then show ?thesis by (auto simp: normalised_weight_def Let_def comp_def)
qed

lemma discount_weights_pos:
  assumes "0 \<le> (g::real)" "0 < n"
  shows "0 < sum_list (map (\<lambda>k. g ^ k) (rev [0..<n]))"
proof -
  have e: "[0..<n] = 0 # [Suc 0..<n]" using assms(2) by (simp add: upt_conv_Cons)
  have "sum_list (map (\<lambda>k. g ^ k) (rev [0..<n])) = sum_list (map (\<lambda>k. g ^ k) [0..<n])"
    by (simp add: rev_map[symmetric])
  also have "\<dots> = 1 + sum_list (map (\<lambda>k. g ^ k) [Suc 0..<n])"
    by (subst e) simp
  finally have s: "sum_list (map (\<lambda>k. g ^ k) (rev [0..<n])) = 1 + sum_list (map (\<lambda>k. g ^ k) [Suc 0..<n])" .
  have "0 \<le> sum_list (map (\<lambda>k. g ^ k) [Suc 0..<n])"
    using assms(1) by (intro sum_list_nonneg) auto
  with s show ?thesis by linarith
qed

lemma discounted_mean_ok:
  "0 \<le> g \<Longrightarrow> trace \<noteq> [] \<Longrightarrow> \<exists>b. discounted_mean trace g = Inr b"
  using discount_weights_pos[of g "length trace"] by (simp add: discounted_mean_def Let_def)

lemma baseline_ok:
  assumes "0 \<le> gamma cfg" "length (trace_global st) = length (trace_refine st)"
  shows "\<exists>b. baseline_of cfg st = Inr b"
proof (cases "trace_refine st = []")
  case True
  then show ?thesis by (simp add: baseline_of_def)
next
  case False
  show ?thesis
  proof (cases "diff cfg")
    case True
    have "map2 (-) (trace_refine st) (trace_global st) \<noteq> []" using False assms(2) by (cases "trace_refine st"; cases "trace_global st") auto
    from discounted_mean_ok[OF assms(1) this] show ?thesis
      using False True assms(2) by (simp add: baseline_of_def np_isub_def)
  next
    case d: False
    from discounted_mean_ok[OF assms(1) False] show ?thesis
      using False d by (simp add: baseline_of_def)
  qed
qed

lemma policy_inputs_ok:
  assumes "list_all (\<lambda>tp. 0 < tp0 tp \<and> tp_rest tp \<noteq> []) fbs" "0 \<le> gamma cfg"
    "length (trace_global st) = length (trace_refine st)"
  shows "\<exists>b. policy_inputs cfg fbs st =
     Inr (map tp1 fbs, map (\<lambda>tp. tp0 tp / sum_list (map tp0 fbs)) fbs,
          map (\<lambda>tp. hd (tp_rest tp)) fbs, map (\<lambda>tp. hd (tp_rest tp)) fbs, b)"
proof -
  have 1: "list_all (\<lambda>tp. 0 < tp0 tp) fbs" and 2: "list_all (\<lambda>tp. tp_rest tp \<noteq> []) fbs"
    using assms(1) by (simp_all add: list_all_iff)
  obtain b where "baseline_of cfg st = Inr b" using baseline_ok[OF assms(2,3)] by blast
  then show ?thesis
    by (simp add: policy_inputs_def normalised_weight_ok[OF 1] all_tp2_ok[OF 2])
qed

lemma finish_round_keeps:
  "trace_global (state_of (finish_round cfg st)) = trace_global st"
  "trace_refine (state_of (finish_round cfg st)) = trace_refine st"
  "self_z (state_of (finish_round cfg st)) = self_z st"
  "self_theta (state_of (finish_round cfg st)) = self_theta st"
  "self_store (state_of (finish_round cfg st)) = self_store st"
  "self_stop_exploration st \<Longrightarrow> self_stop_exploration (state_of (finish_round cfg st))"
  by (simp_all add: finish_round_def Let_def split: sum.split)

lemma explore_traces:
  "trace_global (state_of (explore cfg index sg w b st)) = trace_global st \<and>
   trace_refine (state_of (explore cfg index sg w b st)) = trace_refine st"
proof -
  let ?l = "update_loop cfg index sg w b [0..<min (length (self_z st)) (length (self_theta st))] st"
  have f: "frame st (state_of ?l)" by (rule update_loop_frame)
  show ?thesis
  proof (cases ?l)
    case (Returned st')
    with f show ?thesis by (simp add: explore_def finish_round_keeps frame_def)
  next
    case (Raised e st')
    with f show ?thesis by (simp add: explore_def frame_def)
  qed
qed

subsection \<open>The example server\<close>

lemma upt3: "[0..<3] = [0, 1, 2]"
  by (simp add: upt_rec)

lemma init_uniform3: "fedex_init (example_cfg s d) example_search = Inr uniform3"
  by (simp add: fedex_init_def example_cfg_def example_search_def mle_def np_max_def upt3
      entropy_def Let_def numeral_3_eq_3 uniform3_def)

subsection \<open>Construction without flattening\<close>

text \<open>
  C5. With the flatten option off the constructor should build one candidate list per
  aspect and complete. It does not: the branch is empty, \<^verbatim>\<open>self._cfsp\<close> is read
  unassigned, and the construction ends with AttributeError.
\<close>

theorem init_without_flatten_raises:
  "fedex_init \<lparr> flatten_ss = False, num_arms = 3, diff = False, gamma = 1,
                 sched = ''auto'', cutoff = 0 \<rparr> example_search
   = Inl AttributeError"
  by (simp add: fedex_init_def)

subsection \<open>The adaptive schedule\<close>

text \<open>
  C3. With the schedule \<^verbatim>\<open>adaptive\<close> a call that reaches the schedule selection should
  add the squared infinity norm of the gradient to the accumulator and succeed. On the
  freshly constructed server with three arms and the single feedback tuple
  \<^verbatim>\<open>(1, [0], 1)\<close> the call ends with NameError instead, the accumulator and the policy
  as they were: \<^verbatim>\<open>norm\<close> is not defined in the module.
\<close>

theorem adaptive_raises_NameError:
  "fedex_init (example_cfg ''adaptive'' False) example_search = Inr uniform3 \<and>
   update_policy (example_cfg ''adaptive'' False) [Feedback 1 [0] [1]] uniform3
   = Raised NameError (uniform3\<lparr> trace_global := [1], trace_refine := [1] \<rparr>)"
proof -
  have inputs: "policy_inputs (example_cfg ''adaptive'' False) [Feedback 1 [0] [1]] uniform3
      = Inr ([[0]], [1], [1], [1], 0)"
    by (simp add: policy_inputs_def normalised_weight_def tp2_def baseline_of_def uniform3_def)
  have "update_policy (example_cfg ''adaptive'' False) [Feedback 1 [0] [1]] uniform3
      = Raised NameError (uniform3\<lparr> trace_global := [1], trace_refine := [1] \<rparr>)"
    apply (simp add: update_policy_def inputs np_inner_def)
    apply (simp add: uniform3_def explore_def update_aspect_def signal_def example_cfg_def
        numeral_3_eq_3 exp_minus schedule_def)
    done
  then show ?thesis by (simp add: init_uniform3)
qed

subsection \<open>The global and refine traces\<close>

text \<open>
  C9. Every call of \<^verbatim>\<open>update_policy\<close> appends exactly one value to the trace
  \<^verbatim>\<open>global\<close> and one to the trace \<^verbatim>\<open>refine\<close>, and the two values are equal: both
  are the weight-normalised mean of element 2 of the feedback tuples, whatever the
  difference option is and however the call ends after line 185. So two traces that are
  equal before a round are equal after it. The batch is any list of tuples with a
  positive sample size and a loss; the discount factor is not negative and the two traces
  are of equal length, as they are from the construction on.
\<close>

theorem update_policy_traces:
  assumes "list_all (\<lambda>tp. 0 < tp0 tp \<and> tp_rest tp \<noteq> []) fbs" and "0 \<le> gamma cfg"
    and "length (trace_global st) = length (trace_refine st)"
  shows "trace_global (state_of (update_policy cfg fbs st)) =
           trace_global st @ [np_inner (map (\<lambda>tp. hd (tp_rest tp)) fbs)
                                 (map (\<lambda>tp. tp0 tp / sum_list (map tp0 fbs)) fbs)] \<and>
         trace_refine (state_of (update_policy cfg fbs st)) =
           trace_refine st @ [np_inner (map (\<lambda>tp. hd (tp_rest tp)) fbs)
                                 (map (\<lambda>tp. tp0 tp / sum_list (map tp0 fbs)) fbs)] \<and>
         (trace_global st = trace_refine st \<longrightarrow>
            trace_global (state_of (update_policy cfg fbs st)) =
            trace_refine (state_of (update_policy cfg fbs st)))"
proof -
  obtain b where "policy_inputs cfg fbs st =
     Inr (map tp1 fbs, map (\<lambda>tp. tp0 tp / sum_list (map tp0 fbs)) fbs,
          map (\<lambda>tp. hd (tp_rest tp)) fbs, map (\<lambda>tp. hd (tp_rest tp)) fbs, b)"
    using policy_inputs_ok[OF assms] by blast
  then show ?thesis
    by (simp add: update_policy_def Let_def explore_traces)
qed

theorem update_policy_traces_witness:
  "list_all (\<lambda>tp. 0 < tp0 tp \<and> tp_rest tp \<noteq> []) [Feedback 1 [0] [1], Feedback 3 [1] [5]] \<and>
   0 \<le> gamma (example_cfg ''constant'' True) \<and>
   length (trace_global uniform3) = length (trace_refine uniform3) \<and>
   trace_global (state_of (update_policy (example_cfg ''constant'' True)
       [Feedback 1 [0] [1], Feedback 3 [1] [5]] uniform3)) = [4] \<and>
   trace_refine (state_of (update_policy (example_cfg ''constant'' True)
       [Feedback 1 [0] [1], Feedback 3 [1] [5]] uniform3)) = [4]"
  using update_policy_traces [of "[Feedback 1 [0] [1], Feedback 3 [1] [5]]"
      "example_cfg ''constant'' True" uniform3]
  by (simp add: example_cfg_def uniform3_def np_inner_def)

subsection \<open>The stop of the exploration\<close>















subsection \<open>The gradient of a well-formed round\<close>

lemma gradient_ok:
  "list_all (\<lambda>(idx, s, w). i < length idx \<and> idx ! i < n) tuples \<Longrightarrow> length theta = n \<Longrightarrow>
   list_all (\<lambda>p. p \<noteq> 0) theta \<Longrightarrow> length grad = n \<Longrightarrow>
   \<exists>g. gradient i theta b tuples grad = Inr g \<and> length g = n"
proof (induction tuples arbitrary: grad)
  case Nil
  then show ?case by simp
next
  case (Cons t tuples)
  obtain idx s w where t: "t = (idx, s, w)" by (cases t)
  from Cons.prems(1) t have i: "i < length idx" "idx ! i < n" and rest: "list_all (\<lambda>(idx, s, w). i < length idx \<and> idx ! i < n) tuples"
    by simp_all
  have nz: "theta ! (idx ! i) \<noteq> 0"
    using Cons.prems(2,3) i(2) by (simp add: list_all_length)
  let ?g = "grad[idx ! i := grad ! (idx ! i) + w * (s - b) / theta ! (idx ! i)]"
  have "length ?g = n" using Cons.prems(4) by simp
  from Cons.IH[OF rest Cons.prems(2,3) this] show ?case
    using t i nz Cons.prems(2,4) by simp
qed

lemma valid_feedback_tuples:
  assumes "list_all (valid_feedback st) fbs" "i < length (self_z st)"
  shows "list_all (\<lambda>(idx, s, w). i < length idx \<and> idx ! i < length (self_z st ! i))
           (zip (map tp1 fbs) (zip sg w))"
proof -
  have "\<And>idx. idx \<in> set (map tp1 fbs) \<Longrightarrow> i < length idx \<and> idx ! i < length (self_z st ! i)"
    using assms by (auto simp: list_all_iff valid_feedback_def list_all2_conv_all_nth)
  then show ?thesis
    by (auto simp: list_all_iff dest!: set_zip_leftD)
qed

lemma gradient_valid:
  assumes "well_formed st" "list_all (valid_feedback st) fbs" "i < length (self_z st)"
  shows "\<exists>g. gradient i (self_theta st ! i) b (zip (map tp1 fbs) (zip sg w))
             (replicate (length (self_z st ! i)) 0) = Inr g \<and> length g = length (self_z st ! i)"
proof -
  have th: "self_theta st ! i = map exp (self_z st ! i)"
    using assms(1,3) by (simp add: well_formed_def)
  have "list_all (\<lambda>p. p \<noteq> 0) (self_theta st ! i)" by (simp add: th list_all_iff)
  moreover have "length (self_theta st ! i) = length (self_z st ! i)" by (simp add: th)
  ultimately show ?thesis
    using gradient_ok[OF valid_feedback_tuples[OF assms(2,3)], of "self_theta st ! i" "replicate (length (self_z st ! i)) 0" b sg w]
    by simp
qed

lemma well_formed_uniform3: "well_formed uniform3"
  by (simp add: well_formed_def uniform3_def)

subsection \<open>An unknown schedule name\<close>

lemma schedule_unknown:
  "sched cfg \<notin> set known_schedules \<Longrightarrow> schedule cfg i grad store = (Inl NotImplementedError, store)"
  by (simp add: schedule_def known_schedules_def)

lemma update_aspect_unknown:
  assumes "sched cfg \<notin> set known_schedules"
    and "gradient i (self_theta st ! i) b (zip index (zip sg w)) (replicate (length (self_z st ! i)) 0) = Inr g"
  shows "update_aspect cfg index sg w b i st = Raised NotImplementedError st"
  using assms(2) by (simp add: update_aspect_def schedule_unknown[OF assms(1)])

lemma update_aspect_unknown_never_returns:
  assumes "sched cfg \<notin> set known_schedules"
  shows "\<exists>e. update_aspect cfg index sg w b i st = Raised e st"
  by (cases "gradient i (self_theta st ! i) b (zip index (zip sg w)) (replicate (length (self_z st ! i)) 0)")
     (simp_all add: update_aspect_def schedule_unknown[OF assms(1)])

text \<open>
  One call with an unknown schedule name, on a well-formed server with at least one
  aspect whose exploration has not stopped and a batch that fits it: the call raises
  NotImplementedError, and only the global and refine traces have changed.
\<close>

lemma unknown_schedule_call:
  assumes "sched cfg \<notin> set known_schedules" and "\<not> self_stop_exploration st"
    and "self_z st \<noteq> []" and "well_formed st" and "list_all (valid_feedback st) fbs"
    and "0 \<le> gamma cfg"
  shows "update_policy cfg fbs st =
     Raised NotImplementedError
       (st\<lparr> trace_global := trace_global st @
               [np_inner (map (\<lambda>tp. hd (tp_rest tp)) fbs)
                  (map (\<lambda>tp. tp0 tp / sum_list (map tp0 fbs)) fbs)],
            trace_refine := trace_refine st @
               [np_inner (map (\<lambda>tp. hd (tp_rest tp)) fbs)
                  (map (\<lambda>tp. tp0 tp / sum_list (map tp0 fbs)) fbs)] \<rparr>)"
proof -
  let ?v = "np_inner (map (\<lambda>tp. hd (tp_rest tp)) fbs) (map (\<lambda>tp. tp0 tp / sum_list (map tp0 fbs)) fbs)"
  let ?st1 = "st\<lparr> trace_global := trace_global st @ [?v], trace_refine := trace_refine st @ [?v] \<rparr>"
  have fb: "list_all (\<lambda>tp. 0 < tp0 tp \<and> tp_rest tp \<noteq> []) fbs"
    using assms(5) by (simp add: list_all_iff valid_feedback_def)
  have len: "length (trace_global st) = length (trace_refine st)"
    using assms(4) by (simp add: well_formed_def)
  obtain b where inp: "policy_inputs cfg fbs st =
     Inr (map tp1 fbs, map (\<lambda>tp. tp0 tp / sum_list (map tp0 fbs)) fbs,
          map (\<lambda>tp. hd (tp_rest tp)) fbs, map (\<lambda>tp. hd (tp_rest tp)) fbs, b)"
    using policy_inputs_ok[OF fb assms(6) len] by blast
  have wf1: "well_formed ?st1" using assms(4) by (simp add: well_formed_def)
  have vf1: "list_all (valid_feedback ?st1) fbs" using assms(5) by (simp add: list_all_iff valid_feedback_def)
  have z1: "0 < length (self_z ?st1)" using assms(3) by simp
  have th1: "self_theta ?st1 \<noteq> []" using assms(3,4) by (auto simp: well_formed_def)
  obtain g where g: "gradient 0 (self_theta ?st1 ! 0) b (zip (map tp1 fbs)
       (zip (signal cfg (map (\<lambda>tp. hd (tp_rest tp)) fbs) (map (\<lambda>tp. hd (tp_rest tp)) fbs))
            (map (\<lambda>tp. tp0 tp / sum_list (map tp0 fbs)) fbs)))
       (replicate (length (self_z ?st1 ! 0)) 0) = Inr g"
    using gradient_valid[OF wf1 vf1 z1] by blast
  have upt: "[0..<min (length (self_z ?st1)) (length (self_theta ?st1))] =
        0 # [Suc 0..<min (length (self_z ?st1)) (length (self_theta ?st1))]"
    using assms(3) th1 by (simp add: upt_conv_Cons)
  have "explore cfg (map tp1 fbs)
          (signal cfg (map (\<lambda>tp. hd (tp_rest tp)) fbs) (map (\<lambda>tp. hd (tp_rest tp)) fbs))
          (map (\<lambda>tp. tp0 tp / sum_list (map tp0 fbs)) fbs) b ?st1
        = Raised NotImplementedError ?st1"
    unfolding explore_def by (subst upt) (simp add: update_aspect_unknown[OF assms(1) g])
  with inp assms(2) show ?thesis
    by (simp add: update_policy_def Let_def)
qed


subsection \<open>The entropy\<close>

lemma foldl_minus: "foldl (\<lambda>e x. e - f x) a xs = a - sum_list (map f xs)"
  for a :: real
  by (induction xs arbitrary: a) simp_all

lemma entropy_sum:
  "entropy st = - sum_list (map (\<lambda>ps. prod_list ps * ln (prod_list ps)) (support (self_theta st)))"
  by (simp add: entropy_def support_def foldl_minus)

lemma distribution_le_1: "distribution theta \<Longrightarrow> p \<in> set theta \<Longrightarrow> 0 \<le> p \<and> p \<le> 1"
  using member_le_sum_list[of p theta] by (auto simp: distribution_def list_all_iff)

lemma support_member:
  "ps \<in> set (support thetas) \<longleftrightarrow> list_all2 (\<lambda>p theta. p \<in> set theta \<and> 0 < p) ps thetas"
  by (simp add: support_def product_lists_set list_all2_map2)

lemma prod_list_unit:
  "list_all2 (\<lambda>p theta. 0 < p \<and> p \<le> 1) ps thetas \<Longrightarrow> 0 < prod_list ps \<and> prod_list ps \<le> (1::real)"
proof (induction ps thetas rule: list_all2_induct)
  case Nil
  then show ?case by simp
next
  case (Cons p ps t ts)
  then show ?case by (simp add: mult_le_one less_imp_le)
qed

lemma support_prob:
  assumes "list_all distribution thetas" "ps \<in> set (support thetas)"
  shows "0 < prod_list ps \<and> prod_list ps \<le> 1"
proof -
  have h: "list_all2 (\<lambda>p theta. p \<in> set theta \<and> 0 < p) ps thetas"
    using assms(2) by (simp add: support_member)
  then have len: "length ps = length thetas" by (rule list_all2_lengthD)
  have "list_all2 (\<lambda>p theta. 0 < p \<and> p \<le> 1) ps thetas"
  proof (rule list_all2_all_nthI[OF len])
    fix n assume n: "n < length ps"
    then have d: "distribution (thetas ! n)" using assms(1) len by (simp add: list_all_length)
    from h n have "ps ! n \<in> set (thetas ! n)" "0 < ps ! n"
      by (simp_all add: list_all2_conv_all_nth)
    with distribution_le_1[OF d] show "0 < ps ! n \<and> ps ! n \<le> 1" by simp
  qed
  then show ?thesis by (rule prod_list_unit)
qed

lemma term_nonneg: "0 < p \<Longrightarrow> p \<le> 1 \<Longrightarrow> p * ln p \<le> 0 \<and> (p * ln p = 0 \<longleftrightarrow> p = 1)" for p :: real
  by (auto simp: mult_le_0_iff)

lemma entropy_nonneg:
  assumes "list_all distribution (self_theta st)"
  shows "0 \<le> entropy st"
proof -
  have "sum_list (map (\<lambda>ps. prod_list ps * ln (prod_list ps)) (support (self_theta st))) \<le> 0"
    using support_prob[OF assms] term_nonneg by (intro sum_list_nonpos) auto
  then show ?thesis by (simp add: entropy_sum)
qed

lemma entropy_zero_iff_support:
  assumes "list_all distribution (self_theta st)"
  shows "entropy st = 0 \<longleftrightarrow> (\<forall>ps \<in> set (support (self_theta st)). prod_list ps = 1)"
proof -
  let ?f = "\<lambda>ps. - (prod_list ps * ln (prod_list ps))"
  have e: "entropy st = sum_list (map ?f (support (self_theta st)))"
    by (simp add: entropy_sum uminus_sum_list_map o_def)
  have nn: "\<And>x. x \<in> set (map ?f (support (self_theta st))) \<Longrightarrow> 0 \<le> x"
    using support_prob[OF assms] term_nonneg by auto
  have "entropy st = 0 \<longleftrightarrow> (\<forall>x \<in> set (map ?f (support (self_theta st))). x = 0)"
    unfolding e by (rule sum_list_nonneg_eq_0_iff[OF nn])
  also have "\<dots> \<longleftrightarrow> (\<forall>ps \<in> set (support (self_theta st)). ?f ps = 0)"
    by simp
  also have "\<dots> \<longleftrightarrow> (\<forall>ps \<in> set (support (self_theta st)). prod_list ps = 1)"
  proof (rule ball_cong[OF refl])
    fix ps assume "ps \<in> set (support (self_theta st))"
    from support_prob[OF assms this] term_nonneg[of "prod_list ps"]
    show "(?f ps = 0) = (prod_list ps = 1)" by simp
  qed
  finally show ?thesis .
qed


lemma sum_list_zeros: "(\<And>x. x \<in> set xs \<Longrightarrow> x = 0) \<Longrightarrow> sum_list xs = (0::real)"
  by (induction xs) simp_all

lemma distribution_has_positive:
  assumes "distribution theta"
  shows "\<exists>p \<in> set theta. 0 < p"
proof (rule ccontr)
  assume n: "\<not> (\<exists>p \<in> set theta. 0 < p)"
  have "sum_list theta = 0"
  proof (rule sum_list_zeros)
    fix x assume x: "x \<in> set theta"
    then have "0 \<le> x" using assms by (simp add: distribution_def list_all_iff)
    moreover have "\<not> 0 < x" using n x by blast
    ultimately show "x = 0" by simp
  qed
  with assms show False by (simp add: distribution_def)
qed

lemma support_nonempty:
  "list_all distribution thetas \<Longrightarrow> \<exists>ps. ps \<in> set (support thetas)"
proof (induction thetas)
  case Nil
  then show ?case by (simp add: support_def)
next
  case (Cons theta thetas)
  then obtain ps where ps: "ps \<in> set (support thetas)" by auto
  obtain p where "p \<in> set theta" "0 < p"
    using distribution_has_positive[of theta] Cons.prems by auto
  with ps have "p # ps \<in> set (support (theta # thetas))"
    by (simp add: support_member)
  then show ?case by blast
qed

lemma support_assignment:
  "list_all2 (\<lambda>p theta. p \<in> set theta \<and> 0 < p) ps thetas \<Longrightarrow>
   \<exists>idx. assignment thetas idx \<and> map2 (\<lambda>theta j. theta ! j) thetas idx = ps"
proof (induction ps thetas rule: list_all2_induct)
  case Nil
  have "assignment [] [] \<and> map2 (\<lambda>theta j. theta ! j) [] [] = ([]::real list)"
    by (simp add: assignment_def)
  then show ?case by (rule exI[of _ "[]"])
next
  case (Cons p ps theta thetas)
  from Cons.IH obtain idx where
    idx: "assignment thetas idx" "map2 (\<lambda>theta j. theta ! j) thetas idx = ps"
    by (elim exE conjE)
  from Cons.hyps(1) have "p \<in> set theta" by simp
  then obtain j where j: "j < length theta" "theta ! j = p"
    unfolding in_set_conv_nth by (elim exE conjE)
  have "assignment (theta # thetas) (j # idx) \<and>
        map2 (\<lambda>theta j. theta ! j) (theta # thetas) (j # idx) = p # ps"
    using idx j by (simp add: assignment_def)
  then show ?case by (rule exI[of _ "j # idx"])
qed

lemma joint_prob_unit:
  "list_all2 (\<lambda>theta j. j < length theta) thetas idx \<Longrightarrow> list_all distribution thetas \<Longrightarrow>
   0 \<le> prod_list (map2 (\<lambda>theta j. theta ! j) thetas idx) \<and>
   prod_list (map2 (\<lambda>theta j. theta ! j) thetas idx) \<le> 1"
proof (induction thetas idx rule: list_all2_induct)
  case Nil
  then show ?case by simp
next
  case (Cons theta thetas j idx)
  from Cons.prems Cons.hyps(1) have "0 \<le> theta ! j \<and> theta ! j \<le> 1"
    using distribution_le_1[of theta "theta ! j"] by simp
  moreover have "0 \<le> prod_list (map2 (\<lambda>theta j. theta ! j) thetas idx) \<and>
   prod_list (map2 (\<lambda>theta j. theta ! j) thetas idx) \<le> 1"
    using Cons.IH Cons.prems by simp
  ultimately show ?case by (simp add: mult_le_one)
qed

lemma unit_product_one:
  fixes a b :: real
  assumes "a * b = 1" "0 \<le> a" "a \<le> 1" "0 \<le> b" "b \<le> 1"
  shows "a = 1 \<and> b = 1"
proof -
  have "a * b \<le> a * 1" using assms(2,5) by (intro mult_left_mono) simp_all
  with assms(1,3) have a: "a = 1" by simp
  with assms(1) show ?thesis by simp
qed

lemma joint_prob_one:
  "list_all2 (\<lambda>theta j. j < length theta) thetas idx \<Longrightarrow> list_all distribution thetas \<Longrightarrow>
   prod_list (map2 (\<lambda>theta j. theta ! j) thetas idx) = 1 \<Longrightarrow>
   list_all (\<lambda>theta. 1 \<in> set theta) thetas"
proof (induction thetas idx rule: list_all2_induct)
  case Nil
  then show ?case by simp
next
  case (Cons theta thetas j idx)
  from Cons.prems(1) have d: "distribution theta" "list_all distribution thetas" by simp_all
  have u: "0 \<le> theta ! j \<and> theta ! j \<le> 1"
    using distribution_le_1[OF d(1), of "theta ! j"] Cons.hyps(1) by simp
  from Cons.prems(2) have "theta ! j * prod_list (map2 (\<lambda>theta j. theta ! j) thetas idx) = 1"
    by simp
  from unit_product_one[OF this] u joint_prob_unit[OF Cons.hyps(2) d(2)]
  have tj: "theta ! j = 1" and pr: "prod_list (map2 (\<lambda>theta j. theta ! j) thetas idx) = 1"
    by simp_all
  have "list_all (\<lambda>theta. 1 \<in> set theta) thetas" using d(2) pr by (rule Cons.IH)
  moreover have "1 \<in> set theta" using tj Cons.hyps(1) nth_mem[of j theta] by simp
  ultimately show ?case by simp
qed

lemma distribution_point:
  assumes "distribution theta" "1 \<in> set theta" "p \<in> set theta" "0 < p"
  shows "p = 1"
proof -
  obtain xs ys where t: "theta = xs @ 1 # ys" using split_list[OF assms(2)] by blast
  have nn: "\<And>x. x \<in> set (xs @ ys) \<Longrightarrow> 0 \<le> x"
    using assms(1) t by (auto simp: distribution_def list_all_iff)
  have "sum_list (xs @ ys) = 0" using assms(1) t by (simp add: distribution_def)
  then have "\<forall>x \<in> set (xs @ ys). x = 0"
    using sum_list_nonneg_eq_0_iff[of "xs @ ys"] nn by blast
  then have z: "\<And>x. x \<in> set xs \<or> x \<in> set ys \<Longrightarrow> x = 0" by auto
  from assms(3) t have "p \<in> set xs \<or> p = 1 \<or> p \<in> set ys" by auto
  with z[of p] assms(4) show ?thesis by linarith
qed

lemma prod_list_ones: "list_all (\<lambda>p. p = 1) ps \<Longrightarrow> prod_list ps = (1::real)"
  by (induction ps) simp_all


text \<open>
  C8. On a server whose probability vectors are not negative and sum to 1 each,
  \<^verbatim>\<open>entropy()\<close> is the joint entropy \<open>- \<Sum> p ln p\<close> over the tuples of positive entries,
  one of each aspect; it is not negative; and it is 0 exactly when some joint assignment
  has probability 1.
\<close>

theorem entropy_joint:
  assumes "list_all distribution (self_theta st)"
  shows "entropy st =
           - (\<Sum>ps\<leftarrow>support (self_theta st). prod_list ps * ln (prod_list ps)) \<and>
         0 \<le> entropy st \<and>
         (entropy st = 0 \<longleftrightarrow>
            (\<exists>idx. assignment (self_theta st) idx \<and> joint_prob (self_theta st) idx = 1))"
proof (intro conjI)
  show "entropy st = - (\<Sum>ps\<leftarrow>support (self_theta st). prod_list ps * ln (prod_list ps))"
    by (rule entropy_sum)
  show "0 \<le> entropy st" using assms by (rule entropy_nonneg)
  show "entropy st = 0 \<longleftrightarrow>
            (\<exists>idx. assignment (self_theta st) idx \<and> joint_prob (self_theta st) idx = 1)"
  proof
    assume "entropy st = 0"
    then have all1: "\<forall>ps \<in> set (support (self_theta st)). prod_list ps = 1"
      using entropy_zero_iff_support[OF assms] by simp
    obtain ps where ps: "ps \<in> set (support (self_theta st))"
      using support_nonempty[OF assms] by (elim exE)
    then have "list_all2 (\<lambda>p theta. p \<in> set theta \<and> 0 < p) ps (self_theta st)"
      by (simp add: support_member)
    from support_assignment[OF this] obtain idx where
      idx: "assignment (self_theta st) idx" "map2 (\<lambda>theta j. theta ! j) (self_theta st) idx = ps"
      by (elim exE conjE)
    from all1 ps have "prod_list ps = 1" by simp
    with idx have "assignment (self_theta st) idx \<and> joint_prob (self_theta st) idx = 1"
      by (simp add: joint_prob_def)
    then show "\<exists>idx. assignment (self_theta st) idx \<and> joint_prob (self_theta st) idx = 1"
      by (rule exI)
  next
    assume "\<exists>idx. assignment (self_theta st) idx \<and> joint_prob (self_theta st) idx = 1"
    then obtain idx where a: "assignment (self_theta st) idx"
      and j: "joint_prob (self_theta st) idx = 1" by (elim exE conjE)
    from a have a': "list_all2 (\<lambda>theta j. j < length theta) (self_theta st) idx"
      by (simp add: assignment_def)
    from j have "prod_list (map2 (\<lambda>theta j. theta ! j) (self_theta st) idx) = 1"
      by (simp add: joint_prob_def)
    with a' assms have ones: "list_all (\<lambda>theta. 1 \<in> set theta) (self_theta st)"
      by (rule joint_prob_one)
    have "\<forall>ps \<in> set (support (self_theta st)). prod_list ps = 1"
    proof
      fix ps assume "ps \<in> set (support (self_theta st))"
      then have h: "list_all2 (\<lambda>p theta. p \<in> set theta \<and> 0 < p) ps (self_theta st)"
        by (simp add: support_member)
      have "list_all (\<lambda>p. p = 1) ps"
        unfolding list_all_length
      proof (intro allI impI)
        fix n assume n: "n < length ps"
        with h have m: "ps ! n \<in> set (self_theta st ! n)" "0 < ps ! n"
          and l: "n < length (self_theta st)"
          by (simp_all add: list_all2_conv_all_nth)
        from l assms ones have "distribution (self_theta st ! n)" "1 \<in> set (self_theta st ! n)"
          by (simp_all add: list_all_length)
        then show "ps ! n = 1" using m by (rule distribution_point)
      qed
      then show "prod_list ps = 1" by (rule prod_list_ones)
    qed
    then show "entropy st = 0" using entropy_zero_iff_support[OF assms] by simp
  qed
qed

theorem entropy_joint_witness:
  "list_all distribution (self_theta frozen3) \<and> 0 \<le> entropy frozen3 \<and>
   list_all distribution (self_theta (frozen3\<lparr> self_theta := [[0, 1, 0]] \<rparr>)) \<and>
   entropy (frozen3\<lparr> self_theta := [[0, 1, 0]] \<rparr>) = 0 \<and>
   (\<exists>idx. assignment [[0, 1, 0]] idx \<and> joint_prob [[0, 1, 0]] idx = 1)"
proof -
  have 1: "list_all distribution (self_theta frozen3)"
    by (simp add: distribution_def frozen3_def)
  have 2: "list_all distribution (self_theta (frozen3\<lparr> self_theta := [[0, 1, 0]] \<rparr>))"
    by (simp add: distribution_def)
  have 3: "entropy (frozen3\<lparr> self_theta := [[0, 1, 0]] \<rparr>) = 0"
    by (simp add: entropy_def)
  from entropy_joint[OF 1] entropy_joint[OF 2] 1 2 3 show ?thesis by simp
qed

subsection \<open>The constructed server\<close>

lemma np_max_ok: "xs \<noteq> [] \<Longrightarrow> \<exists>m. np_max xs = Inr m"
  by (cases xs) (simp_all add: np_max_def)

lemma np_max_replicate: "0 < n \<Longrightarrow> np_max (replicate n x) = Inr x"
proof -
  assume "0 < n"
  then obtain k where "n = Suc k" by (cases n) auto
  moreover have "fold max (replicate k x) x = x" by (induction k) simp_all
  ultimately show ?thesis by (simp add: np_max_def)
qed

lemma entropy_uniform:
  assumes "0 < n" "self_theta st = [replicate n (1 / real n)]"
  shows "entropy st = ln (real n)"
proof -
  have f: "filter (\<lambda>p. 0 < p) (replicate n (1 / real n)) = replicate n (1 / real n)"
    using assms(1) by simp
  have "support (self_theta st) = map (\<lambda>x. [x]) (replicate n (1 / real n))"
    by (simp add: support_def assms(2) f)
  then have "entropy st = - (real n * ((1 / real n) * ln (1 / real n)))"
    by (simp add: entropy_sum sum_list_replicate comp_def)
  also have "\<dots> = ln (real n)" using assms(1) by (simp add: ln_div)
  finally show ?thesis .
qed

text \<open>
  C10. The constructor, with the flatten option on and a search that returns at least
  one candidate, builds a server in which every entry of every vector of \<^verbatim>\<open>_z\<close> is
  \<open>- ln size\<close>, every probability is \<open>1 / size\<close> and the probabilities of an aspect sum
  to 1; the entropy and mle traces hold one entry each, the entropy \<open>ln size\<close> and the mle
  \<open>1 / size\<close> of this server; the global and refine traces are empty. The server is
  well formed.
\<close>

theorem init_uniform:
  assumes "flatten_ss cfg" and "random_search (num_arms cfg) \<noteq> []"
  shows "\<exists>st. fedex_init cfg random_search = Inr st \<and>
      self_cfsp st = [random_search (num_arms cfg)] \<and>
      list_all2 (\<lambda>z cands. z = replicate (length cands) (- ln (real (length cands))))
        (self_z st) (self_cfsp st) \<and>
      list_all2 (\<lambda>theta cands. theta = replicate (length cands) (1 / real (length cands)) \<and>
                    sum_list theta = 1)
        (self_theta st) (self_cfsp st) \<and>
      trace_entropy st = [entropy st] \<and> map Inr (trace_mle st) = [mle st] \<and>
      entropy st = ln (real (length (random_search (num_arms cfg)))) \<and>
      mle st = Inr (1 / real (length (random_search (num_arms cfg)))) \<and>
      trace_global st = [] \<and> trace_refine st = [] \<and> well_formed st"
proof -
  let ?c = "random_search (num_arms cfg)"
  let ?n = "length ?c"
  have n: "0 < ?n" using assms(2) by simp
  have e: "exp (- ln (real ?n)) = 1 / real ?n" using n by (simp add: exp_minus inverse_eq_divide)
  let ?st = "\<lparr> self_cfsp = [?c], self_eta0 = [sqrt (2 * ln (real ?n))],
       self_z = [replicate ?n (- ln (real ?n))],
       self_theta = [replicate ?n (1 / real ?n)],
       self_store = [0], trace_global = [], trace_refine = [],
       trace_entropy = [], trace_mle = [], self_stop_exploration = False \<rparr>"
  let ?st' = "?st\<lparr> trace_entropy := [entropy ?st], trace_mle := [1 / real ?n] \<rparr>"
  have m: "mle ?st = Inr (1 / real ?n)" by (simp add: mle_def np_max_replicate[OF n])
  have i: "fedex_init cfg random_search = Inr ?st'"
    using assms(1) by (simp add: fedex_init_def Let_def e m)
  have en: "entropy ?st' = entropy ?st" by (simp add: entropy_def)
  have eu: "entropy ?st' = ln (real ?n)" by (rule entropy_uniform[OF n]) simp
  have m': "mle ?st' = Inr (1 / real ?n)" by (simp add: mle_def np_max_replicate[OF n])
  have s: "sum_list (replicate ?n (1 / real ?n)) = 1" using n by (simp add: sum_list_replicate)
  have wf: "well_formed ?st'" using n by (simp add: well_formed_def e)
  have "fedex_init cfg random_search = Inr ?st' \<and>
      self_cfsp ?st' = [random_search (num_arms cfg)] \<and>
      list_all2 (\<lambda>z cands. z = replicate (length cands) (- ln (real (length cands))))
        (self_z ?st') (self_cfsp ?st') \<and>
      list_all2 (\<lambda>theta cands. theta = replicate (length cands) (1 / real (length cands)) \<and>
                    sum_list theta = 1)
        (self_theta ?st') (self_cfsp ?st') \<and>
      trace_entropy ?st' = [entropy ?st'] \<and> map Inr (trace_mle ?st') = [mle ?st'] \<and>
      entropy ?st' = ln (real ?n) \<and> mle ?st' = Inr (1 / real ?n) \<and>
      trace_global ?st' = [] \<and> trace_refine ?st' = [] \<and> well_formed ?st'"
    using i en m' s wf eu by simp
  then show ?thesis by (rule exI)
qed

theorem init_uniform_witness:
  "flatten_ss (example_cfg ''auto'' False) \<and>
   example_search (num_arms (example_cfg ''auto'' False)) \<noteq> [] \<and>
   (\<exists>st. fedex_init (example_cfg ''auto'' False) example_search = Inr st \<and>
      self_cfsp st = [example_search (num_arms (example_cfg ''auto'' False))] \<and>
      list_all2 (\<lambda>z cands. z = replicate (length cands) (- ln (real (length cands))))
        (self_z st) (self_cfsp st) \<and>
      list_all2 (\<lambda>theta cands. theta = replicate (length cands) (1 / real (length cands)) \<and>
                    sum_list theta = 1)
        (self_theta st) (self_cfsp st) \<and>
      trace_entropy st = [entropy st] \<and> map Inr (trace_mle st) = [mle st] \<and>
      entropy st = ln (real (length (example_search (num_arms (example_cfg ''auto'' False))))) \<and>
      mle st = Inr (1 / real (length (example_search (num_arms (example_cfg ''auto'' False))))) \<and>
      trace_global st = [] \<and> trace_refine st = [] \<and> well_formed st)"
proof -
  have 1: "flatten_ss (example_cfg ''auto'' False)" by (simp add: example_cfg_def)
  have 2: "example_search (num_arms (example_cfg ''auto'' False)) \<noteq> []"
    by (simp add: example_cfg_def example_search_def)
  from 1 2 init_uniform [of "example_cfg ''auto'' False" example_search, OF 1 2]
  show ?thesis by (intro conjI)
qed

subsection \<open>Renormalisation\<close>

lemma sum_exp_pos: "z \<noteq> [] \<Longrightarrow> 0 < sum_list (map exp z)" for z :: "real list"
  by (rule sum_list_pos_real) (simp_all add: list_all_iff)

lemma renormalise:
  fixes z :: "real list"
  assumes "z \<noteq> []"
  shows "sum_list (map exp (map (\<lambda>zk. zk - ln (sum_list (map exp z))) z)) = 1"
proof -
  let ?S = "sum_list (map exp z)"
  have S: "0 < ?S" using assms by (rule sum_exp_pos)
  have "map exp (map (\<lambda>zk. zk - ln ?S) z) = map (\<lambda>zk. exp zk * inverse ?S) z"
    using S by (simp add: exp_diff divide_inverse)
  then have "sum_list (map exp (map (\<lambda>zk. zk - ln ?S) z)) = sum_list (map (\<lambda>zk. exp zk * inverse ?S) z)"
    by (rule arg_cong)
  also have "\<dots> = ?S * inverse ?S" by (simp add: sum_list_mult_const)
  also have "\<dots> = 1" using S by simp
  finally show ?thesis .
qed

lemma apply_step_normalised:
  assumes "apply_step eta grad i st = Returned st'" "i < length (self_z st)" "i < length (self_theta st)"
  shows "normalised st' i"
proof -
  let ?z1 = "map2 (\<lambda>zk gk. zk - eta * gk) (self_z st ! i) grad"
  let ?z2 = "map (\<lambda>zk. zk - ln (sum_list (map exp ?z1))) ?z1"
  from assms(1) have ne: "?z1 \<noteq> []"
    by (auto simp: apply_step_def Let_def logsumexp_def split: if_splits)
  with assms(1) have st': "st' = st\<lparr> self_z := (self_z st)[i := ?z2],
                                   self_theta := (self_theta st)[i := map exp ?z2] \<rparr>"
    by (simp add: apply_step_def Let_def logsumexp_def)
  have s: "sum_list (map exp ?z2) = 1" using ne by (rule renormalise)
  have "?z2 \<noteq> []" using ne by simp
  with s have "logsumexp ?z2 = Inr 0" by (simp add: logsumexp_def)
  with s show ?thesis using assms(2,3) by (simp add: normalised_def st')
qed

lemma apply_step_other:
  assumes "apply_step eta grad i st = Returned st'" "j \<noteq> i"
  shows "self_z st' ! j = self_z st ! j \<and> self_theta st' ! j = self_theta st ! j"
  using assms by (auto simp: apply_step_def Let_def split: sum.splits)

lemma update_aspect_ReturnedD:
  assumes "update_aspect cfg index sg w b i st = Returned st'"
  shows "\<exists>eta grad store'. apply_step eta grad i (st\<lparr> self_store := store' \<rparr>) = Returned st'"
  using assms by (auto simp: update_aspect_def split: sum.splits prod.splits)

lemma update_aspect_normalised:
  assumes "update_aspect cfg index sg w b i st = Returned st'"
    "i < length (self_z st)" "i < length (self_theta st)"
  shows "normalised st' i" and "normalised st j \<Longrightarrow> normalised st' j"
proof -
  from update_aspect_ReturnedD[OF assms(1)] obtain eta grad store' where
    a: "apply_step eta grad i (st\<lparr> self_store := store' \<rparr>) = Returned st'" by blast
  from apply_step_normalised[OF a] assms(2,3) show n: "normalised st' i" by simp
  assume j: "normalised st j"
  show "normalised st' j"
  proof (cases "j = i")
    case True
    with n show ?thesis by simp
  next
    case False
    from apply_step_other[OF a False] j show ?thesis by (simp add: normalised_def)
  qed
qed

lemma update_loop_normalised:
  assumes "update_loop cfg index sg w b is st = Returned st'"
    "list_all (\<lambda>i. i < length (self_z st) \<and> i < length (self_theta st)) is"
  shows "(i \<in> set is \<or> normalised st i) \<Longrightarrow> normalised st' i"
  using assms
proof (induction "is" arbitrary: st)
  case Nil
  then show ?case by simp
next
  case (Cons k ks)
  from Cons.prems(2) obtain st1 where
    k: "update_aspect cfg index sg w b k st = Returned st1"
    and r: "update_loop cfg index sg w b ks st1 = Returned st'"
    by (cases "update_aspect cfg index sg w b k st") simp_all
  have f: "frame st st1" using update_aspect_frame[of st cfg index sg w b k] k by simp
  from Cons.prems(3) have kk: "k < length (self_z st)" "k < length (self_theta st)"
    and ks: "list_all (\<lambda>i. i < length (self_z st1) \<and> i < length (self_theta st1)) ks"
    using f by (simp_all add: frame_def)
  from Cons.prems(1) have "i \<in> set ks \<or> normalised st1 i"
    using update_aspect_normalised[OF k kk] by auto
  then show ?case using r ks by (rule Cons.IH)
qed


lemma finish_round_normalised:
  "finish_round cfg st = Returned st' \<Longrightarrow> normalised st i \<Longrightarrow> normalised st' i"
  using finish_round_keeps(3,4)[of cfg st] by (simp add: normalised_def)

lemma explore_normalised:
  assumes "explore cfg index sg w b st = Returned st'"
    "i < length (self_z st)" "i < length (self_theta st)"
  shows "normalised st' i"
proof -
  let ?is = "[0..<min (length (self_z st)) (length (self_theta st))]"
  from assms(1) obtain st1 where
    l: "update_loop cfg index sg w b ?is st = Returned st1"
    and f: "finish_round cfg st1 = Returned st'"
    by (cases "update_loop cfg index sg w b ?is st") (simp_all add: explore_def)
  have "list_all (\<lambda>i. i < length (self_z st) \<and> i < length (self_theta st)) ?is"
    by (simp add: list_all_iff)
  moreover have "i \<in> set ?is \<or> normalised st i" using assms(2,3) by simp
  ultimately have "normalised st1 i" using update_loop_normalised[OF l] by blast
  with f show ?thesis by (rule finish_round_normalised)
qed

subsection \<open>A round on a well-formed server returns\<close>

lemma list_all_update: "list_all P xs \<Longrightarrow> P y \<Longrightarrow> list_all P (xs[i := y])"
  using set_update_subset_insert[of xs i y] by (auto simp: list_all_iff)

lemma schedule_ok:
  assumes "sched cfg \<in> set working_schedules" "i < length store" "list_all (\<lambda>s. 0 \<le> s) store"
  shows "\<exists>d store'. schedule cfg i grad store = (Inr d, store') \<and> length store' = length store \<and>
           list_all (\<lambda>s. 0 \<le> s) store' \<and> (d = Infinite \<or> (\<exists>x. d = Finite x \<and> 0 < x))"
proof -
  consider "sched cfg = ''auto''" | "sched cfg = ''constant''" | "sched cfg = ''scale''"
    using assms(1) by (auto simp: working_schedules_def)
  then show ?thesis
  proof cases
    case 1
    have p: "0 \<le> store ! i" using assms(2,3) by (simp add: list_all_length)
    then have n: "list_all (\<lambda>s. 0 \<le> s) (store[i := store ! i + 1])"
      using assms(3) by (intro list_all_update) simp_all
    from p have "0 < sqrt (store ! i + 1)" by simp
    with 1 assms(2) p n show ?thesis by (simp add: schedule_def Let_def)
  next
    case 2
    with assms(3) show ?thesis by (simp add: schedule_def)
  next
    case 3
    show ?thesis
    proof (cases "1 < length grad")
      case True
      then have "1 < real (length grad)" by simp
      then have "0 < ln (real (length grad))" by (rule ln_gt_zero)
      then have "0 < 1 / sqrt (2 * ln (real (length grad)))" by simp
      with 3 True assms(3) show ?thesis by (simp add: schedule_def)
    next
      case False
      with 3 assms(3) show ?thesis by (simp add: schedule_def)
    qed
  qed
qed

lemma step_size_ok:
  "i < length eta0 \<Longrightarrow> d = Infinite \<or> (\<exists>x. d = Finite x \<and> 0 < x) \<Longrightarrow>
   \<exists>eta. step_size eta0 i d = Inr eta"
  by (auto simp: step_size_def)

lemma all_max_ok: "list_all (\<lambda>t. t \<noteq> []) ts \<Longrightarrow> \<exists>ms. all_max ts = Inr ms"
proof (induction ts)
  case Nil
  then show ?case by simp
next
  case (Cons t ts)
  then obtain m ms where "np_max t = Inr m" "all_max ts = Inr ms"
    using np_max_ok[of t] by auto
  then show ?case by simp
qed

lemma well_formed_store:
  "well_formed st \<Longrightarrow> length store' = length (self_store st) \<Longrightarrow> list_all (\<lambda>s. 0 \<le> s) store' \<Longrightarrow>
   well_formed (st\<lparr> self_store := store' \<rparr>)"
  by (simp add: well_formed_def)

lemma apply_step_ok:
  assumes "well_formed st" "i < length (self_z st)" "length grad = length (self_z st ! i)"
  shows "\<exists>st'. apply_step eta grad i st = Returned st' \<and> well_formed st' \<and>
           map length (self_z st') = map length (self_z st)"
proof -
  let ?z1 = "map2 (\<lambda>zk gk. zk - eta * gk) (self_z st ! i) grad"
  let ?z2 = "map (\<lambda>zk. zk - ln (sum_list (map exp ?z1))) ?z1"
  let ?st' = "st\<lparr> self_z := (self_z st)[i := ?z2],
                   self_theta := (self_theta st)[i := map exp ?z2] \<rparr>"
  have zi: "self_z st ! i \<noteq> []" using assms(1,2) by (simp add: well_formed_def list_all_length)
  have l1: "length ?z1 = length (self_z st ! i)" using assms(3) by simp
  with zi have ne: "?z1 \<noteq> []" by (metis length_0_conv)
  then have r: "apply_step eta grad i st = Returned ?st'"
    by (simp add: apply_step_def Let_def logsumexp_def)
  have th: "self_theta st = map (map exp) (self_z st)" using assms(1) by (simp add: well_formed_def)
  have "(self_theta st)[i := map exp ?z2] = map (map exp) ((self_z st)[i := ?z2])"
    by (simp add: th map_update)
  moreover have "list_all (\<lambda>z. z \<noteq> []) ((self_z st)[i := ?z2])"
    using assms(1) ne by (intro list_all_update) (simp_all add: well_formed_def)
  moreover have ml: "map length ((self_z st)[i := ?z2]) = map length (self_z st)"
    using l1 assms(2) by (simp add: map_update list_update_same_conv)
  ultimately have "well_formed ?st'"
    using assms(1) by (simp add: well_formed_def)
  with r ml show ?thesis by simp
qed


lemma valid_feedback_lengths:
  "map length (self_z st') = map length (self_z st) \<Longrightarrow>
   valid_feedback st' tp = valid_feedback st tp"
proof -
  assume a: "map length (self_z st') = map length (self_z st)"
  have h: "\<And>zs. list_all2 (\<lambda>a z. a < length z) (tp1 tp) zs =
        list_all2 (\<lambda>a n. a < n) (tp1 tp) (map length zs)"
    by (simp add: list_all2_map2)
  have "list_all2 (\<lambda>a z. a < length z) (tp1 tp) (self_z st') =
        list_all2 (\<lambda>a z. a < length z) (tp1 tp) (self_z st)"
    by (simp only: h a)
  then show ?thesis by (simp add: valid_feedback_def)
qed

lemma update_aspect_ok:
  assumes "well_formed st" "list_all (valid_feedback st) fbs" "i < length (self_z st)"
    "sched cfg \<in> set working_schedules"
  shows "\<exists>st'. update_aspect cfg (map tp1 fbs) sg w b i st = Returned st' \<and> well_formed st' \<and>
           map length (self_z st') = map length (self_z st)"
proof -
  obtain g where g: "gradient i (self_theta st ! i) b (zip (map tp1 fbs) (zip sg w))
             (replicate (length (self_z st ! i)) 0) = Inr g"
    and lg: "length g = length (self_z st ! i)"
    using gradient_valid[OF assms(1,2,3)] by blast
  have ist: "i < length (self_store st)" and ie: "i < length (self_eta0 st)"
    and nn: "list_all (\<lambda>s. 0 \<le> s) (self_store st)"
    using assms(1,3) by (simp_all add: well_formed_def)
  obtain d store' where s: "schedule cfg i g (self_store st) = (Inr d, store')"
    and ls: "length store' = length (self_store st)" and ns: "list_all (\<lambda>s. 0 \<le> s) store'"
    and dd: "d = Infinite \<or> (\<exists>x. d = Finite x \<and> 0 < x)"
    using schedule_ok[OF assms(4) ist nn, of g] by blast
  obtain eta where e: "step_size (self_eta0 st) i d = Inr eta"
    using step_size_ok[OF ie dd] by blast
  let ?st1 = "st\<lparr> self_store := store' \<rparr>"
  have wf1: "well_formed ?st1" using assms(1) ls ns by (rule well_formed_store)
  have "\<exists>st'. apply_step eta g i ?st1 = Returned st' \<and> well_formed st' \<and>
           map length (self_z st') = map length (self_z ?st1)"
    using wf1 assms(3) lg by (intro apply_step_ok) simp_all
  then show ?thesis using g s e by (simp add: update_aspect_def)
qed

lemma update_loop_ok:
  assumes "sched cfg \<in> set working_schedules"
  shows "well_formed st \<Longrightarrow> list_all (valid_feedback st) fbs \<Longrightarrow>
         list_all (\<lambda>i. i < length (self_z st)) is \<Longrightarrow>
         \<exists>st'. update_loop cfg (map tp1 fbs) sg w b is st = Returned st' \<and> well_formed st' \<and>
           map length (self_z st') = map length (self_z st)"
proof (induction "is" arbitrary: st)
  case Nil
  then show ?case by simp
next
  case (Cons i "is")
  from Cons.prems(3) have i: "i < length (self_z st)" by simp
  obtain st1 where u: "update_aspect cfg (map tp1 fbs) sg w b i st = Returned st1"
    and wf1: "well_formed st1" and ml: "map length (self_z st1) = map length (self_z st)"
    using update_aspect_ok[OF Cons.prems(1,2) i assms] by blast
  have v1: "list_all (valid_feedback st1) fbs"
    using Cons.prems(2) valid_feedback_lengths[OF ml] by (simp add: list_all_iff)
  have "length (self_z st1) = length (self_z st)"
    using ml by (metis length_map)
  with Cons.prems(3) have is1: "list_all (\<lambda>i. i < length (self_z st1)) is" by simp
  from Cons.IH[OF wf1 v1 is1] u ml show ?case by simp
qed

lemma finish_round_ok:
  assumes "well_formed st"
  shows "\<exists>st'. finish_round cfg st = Returned st' \<and> well_formed st'"
proof -
  let ?st1 = "st\<lparr> trace_entropy := trace_entropy st @ [entropy st] \<rparr>"
  have "list_all (\<lambda>t. t \<noteq> []) (self_theta st)"
    using assms by (simp add: well_formed_def list_all_iff)
  then obtain ms where "all_max (self_theta st) = Inr ms" using all_max_ok by blast
  then have m: "mle ?st1 = Inr (prod_list ms)" by (simp add: mle_def)
  have "well_formed ?st1" using assms by (simp add: well_formed_def)
  then show ?thesis by (simp add: finish_round_def Let_def m well_formed_def)
qed

lemma update_policy_returns:
  assumes "well_formed st" "list_all (valid_feedback st) fbs" "0 \<le> gamma cfg"
    "sched cfg \<in> set working_schedules"
  shows "\<exists>st'. update_policy cfg fbs st = Returned st' \<and> well_formed st'"
proof -
  let ?v = "np_inner (map (\<lambda>tp. hd (tp_rest tp)) fbs) (map (\<lambda>tp. tp0 tp / sum_list (map tp0 fbs)) fbs)"
  let ?st1 = "st\<lparr> trace_global := trace_global st @ [?v], trace_refine := trace_refine st @ [?v] \<rparr>"
  have fb: "list_all (\<lambda>tp. 0 < tp0 tp \<and> tp_rest tp \<noteq> []) fbs"
    using assms(2) by (simp add: list_all_iff valid_feedback_def)
  have len: "length (trace_global st) = length (trace_refine st)"
    using assms(1) by (simp add: well_formed_def)
  obtain b where inp: "policy_inputs cfg fbs st =
     Inr (map tp1 fbs, map (\<lambda>tp. tp0 tp / sum_list (map tp0 fbs)) fbs,
          map (\<lambda>tp. hd (tp_rest tp)) fbs, map (\<lambda>tp. hd (tp_rest tp)) fbs, b)"
    using policy_inputs_ok[OF fb assms(3) len] by blast
  have wf1: "well_formed ?st1" using assms(1) by (simp add: well_formed_def)
  have vf1: "list_all (valid_feedback ?st1) fbs" using assms(2) by (simp add: list_all_iff valid_feedback_def)
  show ?thesis
  proof (cases "self_stop_exploration st")
    case True
    have "well_formed (?st1\<lparr> trace_entropy := trace_entropy ?st1 @ [0],
                             trace_mle := trace_mle ?st1 @ [1] \<rparr>)"
      using wf1 by (simp add: well_formed_def)
    with True inp show ?thesis by (simp add: update_policy_def Let_def)
  next
    case False
    let ?is = "[0..<min (length (self_z ?st1)) (length (self_theta ?st1))]"
    have "list_all (\<lambda>i. i < length (self_z ?st1)) ?is" by (simp add: list_all_iff)
    from update_loop_ok[OF assms(4) wf1 vf1 this] obtain st2 where
      l: "update_loop cfg (map tp1 fbs)
            (signal cfg (map (\<lambda>tp. hd (tp_rest tp)) fbs) (map (\<lambda>tp. hd (tp_rest tp)) fbs))
            (map (\<lambda>tp. tp0 tp / sum_list (map tp0 fbs)) fbs) b ?is ?st1 = Returned st2"
      and wf2: "well_formed st2" by blast
    from finish_round_ok[OF wf2, of cfg] l False inp show ?thesis
      by (simp add: update_policy_def Let_def explore_def)
  qed
qed

text \<open>A call that returns, on a server whose exploration had not stopped, leaves every
  aspect normalised, whatever the vectors were before.\<close>

lemma update_policy_Returned_normalised:
  assumes "update_policy cfg fbs st = Returned st'" and "\<not> self_stop_exploration st"
    and "i < length (self_z st)" and "i < length (self_theta st)"
  shows "self_theta st' ! i = map exp (self_z st' ! i) \<and>
         sum_list (map exp (self_z st' ! i)) = 1 \<and>
         logsumexp (self_z st' ! i) = Inr 0"
proof -
  from assms(1) obtain index weight before after baseline where
    "policy_inputs cfg fbs st = Inr (index, weight, before, after, baseline)"
    by (cases "policy_inputs cfg fbs st") (auto simp: update_policy_def)
  with assms(1,2) have
    "explore cfg index (signal cfg before after) weight baseline
       (st\<lparr> trace_global := trace_global st @ [np_inner before weight],
            trace_refine := trace_refine st @ [np_inner after weight] \<rparr>) = Returned st'"
    by (simp add: update_policy_def Let_def)
  from explore_normalised[OF this, of i] assms(3,4) show ?thesis
    by (simp add: normalised_def)
qed

subsection \<open>The gradient of a round\<close>

lemma gradient_closed_form:
  "gradient i theta b tuples grad = Inr g \<Longrightarrow>
   length g = length grad \<and>
   (\<forall>a < length grad. g ! a = grad ! a +
      (\<Sum>(idx, s, w)\<leftarrow>tuples. if idx ! i = a then w * (s - b) / theta ! a else 0))"
proof (induction tuples arbitrary: grad)
  case Nil
  then show ?case by simp
next
  case (Cons t tuples)
  obtain idx s w where t: "t = (idx, s, w)" by (cases t)
  let ?grad = "grad[idx ! i := grad ! (idx ! i) + w * (s - b) / theta ! (idx ! i)]"
  from Cons.prems t have r: "gradient i theta b tuples ?grad = Inr g"
    and rng: "idx ! i < length grad"
    by (simp_all split: if_splits)
  from Cons.IH[OF r] have l: "length g = length grad"
    and v: "\<And>a. a < length grad \<Longrightarrow> g ! a = ?grad ! a +
      (\<Sum>(idx, s, w)\<leftarrow>tuples. if idx ! i = a then w * (s - b) / theta ! a else 0)"
    by simp_all
  show ?case
  proof (intro conjI allI impI)
    show "length g = length grad" by (rule l)
    fix a assume a: "a < length grad"
    show "g ! a = grad ! a +
      (\<Sum>(idx, s, w)\<leftarrow>t # tuples. if idx ! i = a then w * (s - b) / theta ! a else 0)"
      using v[OF a] a rng by (cases "idx ! i = a") (simp_all add: t)
  qed
qed

lemma policy_inputs_InrD:
  assumes "policy_inputs cfg fbs st = Inr (index, weight, before, after, baseline)"
  shows "index = map tp1 fbs \<and> weight = map (\<lambda>tp. tp0 tp / sum_list (map tp0 fbs)) fbs \<and>
         before = map (\<lambda>tp. hd (tp_rest tp)) fbs \<and> after = map (\<lambda>tp. hd (tp_rest tp)) fbs \<and>
         baseline_of cfg st = Inr baseline"
proof -
  from assms obtain w b a bl where
    1: "normalised_weight fbs = Inr w" and 2: "all_tp2 fbs = Inr b" and 3: "all_tp2 fbs = Inr a"
    and 4: "baseline_of cfg st = Inr bl"
    and 5: "(index, weight, before, after, baseline) = (map tp1 fbs, w, b, a, bl)"
    by (auto simp: policy_inputs_def split: sum.splits)
  from 1 have "w = map (\<lambda>tp. tp0 tp / sum_list (map tp0 fbs)) fbs"
    by (auto simp: normalised_weight_def Let_def comp_def split: if_splits)
  with all_tp2_InrD[OF 2] all_tp2_InrD[OF 3] 4 5 show ?thesis by simp
qed

lemma map2_minus_self: "map2 (-) (map f xs) (map f xs) = map (\<lambda>x. 0::real) xs"
  by (induction xs) simp_all

lemma update_aspect_round_gradient:
  assumes "policy_inputs cfg fbs st = Inr (index, weight, before, after, baseline)"
    and "self_theta st1 = self_theta st" and "self_z st1 = self_z st"
  shows "update_aspect cfg index (signal cfg before after) weight baseline i st1 =
     (case round_gradient cfg fbs st i of
        Inl e \<Rightarrow> Raised e st1
      | Inr grad \<Rightarrow>
          (case schedule cfg i grad (self_store st1) of
             (Inl e, store') \<Rightarrow> Raised e (st1\<lparr> self_store := store' \<rparr>)
           | (Inr d, store') \<Rightarrow>
               (case step_size (self_eta0 st1) i d of
                  Inl e \<Rightarrow> Raised e (st1\<lparr> self_store := store' \<rparr>)
                | Inr eta \<Rightarrow> apply_step eta grad i (st1\<lparr> self_store := store' \<rparr>))))"
  by (simp add: update_aspect_def round_gradient_def assms)

text \<open>
  The gradient in closed form. Both loss arrays are read from element 2 of the feedback
  tuples, so the signal of a tuple is \<open>tp[2] - tp[2] = 0\<close> when the difference option is
  configured and \<open>tp[2]\<close> otherwise; entry \<open>a\<close> of the gradient of aspect \<open>i\<close> is the
  sum, over the tuples whose arm for aspect \<open>i\<close> is \<open>a\<close>, of
  \<open>weight \<sqdot> (s - baseline) / prob[a]\<close>.
\<close>

lemma gradient_sum:
  assumes "policy_inputs cfg fbs st = Inr (index, weight, before, after, baseline)"
    and "round_gradient cfg fbs st i = Inr grad"
    and "a < length (self_z st ! i)"
  shows "signal cfg before after = map (\<lambda>tp. if diff cfg then 0 else hd (tp_rest tp)) fbs \<and>
         grad ! a =
           (\<Sum>tp\<leftarrow>fbs. if tp1 tp ! i = a
                      then tp0 tp / sum_list (map tp0 fbs) *
                           ((if diff cfg then 0 else hd (tp_rest tp)) - baseline) /
                           self_theta st ! i ! a
                      else 0)"
proof -
  note d = policy_inputs_InrD[OF assms(1)]
  let ?s = "\<lambda>tp. if diff cfg then 0 else hd (tp_rest tp)"
  let ?w = "\<lambda>tp. tp0 tp / sum_list (map tp0 fbs)"
  have sg: "signal cfg before after = map ?s fbs"
    using d by (simp add: signal_def map2_minus_self)
  have z: "zip index (zip (signal cfg before after) weight) = map (\<lambda>tp. (tp1 tp, ?s tp, ?w tp)) fbs"
    unfolding sg using d by (simp add: zip_map_map zip_same_conv_map comp_def)
  from assms(1,2) have "gradient i (self_theta st ! i) baseline
       (map (\<lambda>tp. (tp1 tp, ?s tp, ?w tp)) fbs) (replicate (length (self_z st ! i)) 0) = Inr grad"
    by (simp add: round_gradient_def z)
  from gradient_closed_form[OF this] assms(3)
  have "grad ! a = (\<Sum>(idx, s, w)\<leftarrow>map (\<lambda>tp. (tp1 tp, ?s tp, ?w tp)) fbs.
           if idx ! i = a then w * (s - baseline) / self_theta st ! i ! a else 0)"
    by simp
  also have "\<dots> = (\<Sum>tp\<leftarrow>fbs. if tp1 tp ! i = a
                      then ?w tp * (?s tp - baseline) / self_theta st ! i ! a else 0)"
    by (simp add: comp_def)
  finally show ?thesis using sg by simp
qed


subsection \<open>One round from the uniform policy\<close>

lemma schedule_finite:
  assumes "sched cfg \<in> set working_schedules" "i < length store" "list_all (\<lambda>s. 0 \<le> s) store"
    "1 < length grad"
  shows "\<exists>x store'. schedule cfg i grad store = (Inr (Finite x), store') \<and> 0 < x"
proof -
  from schedule_ok[OF assms(1-3), of grad] obtain d store' where
    s: "schedule cfg i grad store = (Inr d, store')"
    and d: "d = Infinite \<or> (\<exists>x. d = Finite x \<and> 0 < x)" by blast
  have "d \<noteq> Infinite"
    using s assms(4) by (auto simp: schedule_def Let_def split: if_splits)
  with s d show ?thesis by auto
qed

lemma finish_round_theta:
  assumes "all_max (self_theta st) = Inr ms"
  shows "\<exists>st'. finish_round cfg st = Returned st' \<and> self_theta st' = self_theta st \<and>
           self_z st' = self_z st"
proof -
  have "mle (st\<lparr> trace_entropy := trace_entropy st @ [entropy st] \<rparr>) = Inr (prod_list ms)"
    using assms by (simp add: mle_def)
  then show ?thesis by (simp add: finish_round_def Let_def)
qed

text \<open>
  Where the round works. Take the server constructed for three candidates, the
  difference option off and one of the schedules \<^verbatim>\<open>auto\<close>, \<^verbatim>\<open>constant\<close>,
  \<^verbatim>\<open>scale\<close>. One call with one feedback tuple per arm, of equal sample size, the loss
  of arm 0 strictly below the equal losses of arms 1 and 2, returns, and the new
  probabilities satisfy \<open>prob[0] > prob[1] = prob[2]\<close>.
\<close>

lemma scenario_A_working:
  assumes "sched cfg \<in> set working_schedules" and "\<not> diff cfg" and "0 < n" and "l0 < l1"
  shows "\<exists>st' p0 p1 p2.
           update_policy cfg [Feedback n [0] [l0], Feedback n [1] [l1], Feedback n [2] [l1]] uniform3
             = Returned st' \<and>
           self_theta st' = [[p0, p1, p2]] \<and> p1 < p0 \<and> p1 = p2"
proof -
  let ?fbs = "[Feedback n [0] [l0], Feedback n [1] [l1], Feedback n [2] [l1]]"
  define st1 where "st1 = uniform3\<lparr> trace_global := trace_global uniform3 @ [np_inner [l0, l1, l1] [1/3, 1/3, 1/3]],
                         trace_refine := trace_refine uniform3 @ [np_inner [l0, l1, l1] [1/3, 1/3, 1/3]] \<rparr>"
  have w: "n / (n + n + n) = 1 / 3" using assms(3) by (simp add: field_simps)
  have inp: "policy_inputs cfg ?fbs uniform3 =
      Inr ([[0], [1], [2]], [1/3, 1/3, 1/3], [l0, l1, l1], [l0, l1, l1], 0)"
    using assms(3) by (simp add: policy_inputs_def normalised_weight_def tp2_def baseline_of_def uniform3_def w)
  have up: "update_policy cfg ?fbs uniform3 =
      explore cfg [[0], [1], [2]] [l0, l1, l1] [1/3, 1/3, 1/3] 0 st1"
    unfolding update_policy_def inp using assms(2)
    by (simp add: st1_def signal_def Let_def) (simp add: uniform3_def)
  have z1: "self_z st1 = [[- ln 3, - ln 3, - ln 3]]"
    and t1: "self_theta st1 = [[1/3, 1/3, 1/3]]"
    and s1: "self_store st1 = [0]" and e1: "self_eta0 st1 = [sqrt (2 * ln 3)]"
    by (simp_all add: st1_def uniform3_def exp_minus)
  have g: "gradient 0 (self_theta st1 ! 0) 0 (zip [[0], [1], [2]] (zip [l0, l1, l1] [1/3, 1/3, 1/3]))
             (replicate (length (self_z st1 ! 0)) 0) = Inr [l0, l1, l1]"
    by (simp add: z1 t1 numeral_3_eq_3)
  obtain x store' where sc: "schedule cfg 0 [l0, l1, l1] (self_store st1) = (Inr (Finite x), store')"
    and x: "0 < x"
    using schedule_finite[OF assms(1), of 0 "self_store st1" "[l0, l1, l1]"] by (auto simp: s1)
  define eta where "eta = sqrt (2 * ln 3) / x"
  have eta: "0 < eta" using x by (simp add: eta_def)
  have ss: "step_size (self_eta0 st1) 0 (Finite x) = Inr eta"
    using x by (simp add: step_size_def e1 eta_def)
  define L where "L = ln (exp (- ln 3 - eta * l0) + exp (- ln 3 - eta * l1) + exp (- ln 3 - eta * l1))"
  define st2 where "st2 = st1\<lparr> self_store := store',
      self_z := [[- ln 3 - eta * l0 - L, - ln 3 - eta * l1 - L, - ln 3 - eta * l1 - L]],
      self_theta := [[exp (- ln 3 - eta * l0 - L), exp (- ln 3 - eta * l1 - L),
                      exp (- ln 3 - eta * l1 - L)]] \<rparr>"
  have ap: "apply_step eta [l0, l1, l1] 0 (st1\<lparr> self_store := store' \<rparr>) = Returned st2"
    by (simp add: apply_step_def Let_def logsumexp_def z1 t1 st2_def L_def add.assoc)
  have ua: "update_aspect cfg [[0], [1], [2]] [l0, l1, l1] [1/3, 1/3, 1/3] 0 0 st1 = Returned st2"
    unfolding update_aspect_def g by (simp add: sc ss ap)
  have t2: "self_theta st2 = [[exp (- ln 3 - eta * l0 - L), exp (- ln 3 - eta * l1 - L),
                      exp (- ln 3 - eta * l1 - L)]]"
    by (simp add: st2_def)
  have upt: "[0..<min (length (self_z st1)) (length (self_theta st1))] = [0]"
    by (simp add: z1 t1)
  have "\<exists>ms. all_max (self_theta st2) = Inr ms" by (simp add: t2 np_max_def)
  then obtain st3 where f: "finish_round cfg st2 = Returned st3"
    and t3: "self_theta st3 = self_theta st2"
    using finish_round_theta by blast
  have "explore cfg [[0], [1], [2]] [l0, l1, l1] [1/3, 1/3, 1/3] 0 st1 = Returned st3"
    unfolding explore_def upt update_loop.simps ua by (simp add: f)
  with up have r: "update_policy cfg ?fbs uniform3 = Returned st3" by simp
  have "eta * l0 < eta * l1" using eta assms(4) by simp
  then have lt: "exp (- ln 3 - eta * l1 - L) < exp (- ln 3 - eta * l0 - L)" by simp
  from r t3 t2 lt have "update_policy cfg ?fbs uniform3 = Returned st3 \<and>
      self_theta st3 = [[exp (- ln 3 - eta * l0 - L), exp (- ln 3 - eta * l1 - L),
                         exp (- ln 3 - eta * l1 - L)]] \<and>
      exp (- ln 3 - eta * l1 - L) < exp (- ln 3 - eta * l0 - L) \<and>
      exp (- ln 3 - eta * l1 - L) = exp (- ln 3 - eta * l1 - L)"
    by simp
  then show ?thesis by (intro exI)
qed


subsection \<open>An unknown schedule name, on every server that can arise\<close>

lemma fedex_init_shape:
  assumes "fedex_init cfg rs = Inr st"
  shows "well_formed st \<and> \<not> self_stop_exploration st \<and> self_z st \<noteq> []"
proof -
  from assms have f: "flatten_ss cfg" by (auto simp: fedex_init_def split: if_splits)
  let ?c = "rs (num_arms cfg)"
  let ?n = "length ?c"
  have n: "0 < ?n"
  proof (rule ccontr)
    assume "\<not> 0 < ?n"
    then have "?c = []" by simp
    with assms f show False by (simp add: fedex_init_def Let_def mle_def np_max_def)
  qed
  let ?st = "\<lparr> self_cfsp = [?c], self_eta0 = [sqrt (2 * ln (real ?n))],
       self_z = [replicate ?n (- ln (real ?n))],
       self_theta = [replicate ?n (exp (- ln (real ?n)))],
       self_store = [0], trace_global = [], trace_refine = [],
       trace_entropy = [], trace_mle = [], self_stop_exploration = False \<rparr>"
  have m: "mle ?st = Inr (exp (- ln (real ?n)))" by (simp add: mle_def np_max_replicate[OF n])
  have "fedex_init cfg rs = Inr (?st\<lparr> trace_entropy := [entropy ?st], trace_mle := [exp (- ln (real ?n))] \<rparr>)"
    using f by (simp add: fedex_init_def Let_def m)
  with assms have "st = ?st\<lparr> trace_entropy := [entropy ?st], trace_mle := [exp (- ln (real ?n))] \<rparr>"
    by simp
  then show ?thesis using n by (simp add: well_formed_def)
qed

lemma unknown_call:
  assumes "sched cfg \<notin> set known_schedules" "\<not> self_stop_exploration st"
    "self_z st \<noteq> []" "self_theta st \<noteq> []"
  shows "\<exists>e. update_policy cfg fbs st = Raised e st \<or>
             (\<exists>v. update_policy cfg fbs st =
                Raised e (st\<lparr> trace_global := trace_global st @ [v],
                               trace_refine := trace_refine st @ [v] \<rparr>))"
proof (cases "policy_inputs cfg fbs st")
  case (Inl e)
  then have "update_policy cfg fbs st = Raised e st" by (simp add: update_policy_def)
  then show ?thesis by blast
next
  case (Inr t)
  obtain index weight before after baseline where
    t: "t = (index, weight, before, after, baseline)" by (cases t)
  from Inr t policy_inputs_InrD[of cfg fbs st index weight before after baseline]
  have ba: "before = after" by simp
  let ?st1 = "st\<lparr> trace_global := trace_global st @ [np_inner after weight],
                    trace_refine := trace_refine st @ [np_inner after weight] \<rparr>"
  have upt: "[0..<min (length (self_z ?st1)) (length (self_theta ?st1))] =
        0 # [Suc 0..<min (length (self_z ?st1)) (length (self_theta ?st1))]"
    using assms(3,4) by (simp add: upt_conv_Cons)
  obtain e where e: "update_aspect cfg index (signal cfg before after) weight baseline 0 ?st1
      = Raised e ?st1"
    using update_aspect_unknown_never_returns[OF assms(1)] by blast
  have "explore cfg index (signal cfg before after) weight baseline ?st1 = Raised e ?st1"
    unfolding explore_def by (subst upt) (simp add: e)
  with Inr t ba assms(2) have "update_policy cfg fbs st = Raised e ?st1"
    by (simp add: update_policy_def Let_def)
  then show ?thesis by blast
qed

lemma unknown_rounds:
  assumes "sched cfg \<notin> set known_schedules"
  shows "\<not> self_stop_exploration st \<Longrightarrow> well_formed st \<Longrightarrow> self_z st \<noteq> [] \<Longrightarrow>
         \<not> self_stop_exploration (rounds cfg batches st) \<and> well_formed (rounds cfg batches st) \<and>
         self_z (rounds cfg batches st) = self_z st \<and>
         self_theta (rounds cfg batches st) = self_theta st \<and>
         self_store (rounds cfg batches st) = self_store st"
proof (induction batches arbitrary: st)
  case Nil
  then show ?case by simp
next
  case (Cons fbs batches)
  let ?st' = "state_of (update_policy cfg fbs st)"
  have th: "self_theta st \<noteq> []" using Cons.prems(2,3) by (auto simp: well_formed_def)
  from unknown_call[OF assms Cons.prems(1,3) th, of fbs]
  have "?st' = st \<or> (\<exists>v. ?st' = st\<lparr> trace_global := trace_global st @ [v],
                                      trace_refine := trace_refine st @ [v] \<rparr>)"
    by auto
  then have k: "\<not> self_stop_exploration ?st' \<and> well_formed ?st' \<and> self_z ?st' = self_z st \<and>
      self_theta ?st' = self_theta st \<and> self_store ?st' = self_store st"
    using Cons.prems by (auto simp: well_formed_def)
  then have "\<not> self_stop_exploration ?st'" "well_formed ?st'" "self_z ?st' \<noteq> []"
    using Cons.prems(3) by simp_all
  from Cons.IH[OF this] k show ?case by simp
qed


text \<open>
  C7. Let the configured schedule name be none of \<^verbatim>\<open>adaptive\<close>, \<^verbatim>\<open>aggressive\<close>,
  \<^verbatim>\<open>auto\<close>, \<^verbatim>\<open>constant\<close>, \<^verbatim>\<open>scale\<close>, and take the server that the constructor
  builds under this configuration, after any sequence of earlier calls of
  \<^verbatim>\<open>update_policy\<close>. A call with a batch that fits the server raises
  NotImplementedError. No schedule is used in its place: the exploration has not stopped,
  and \<^verbatim>\<open>_z\<close>, \<^verbatim>\<open>_theta\<close> and \<^verbatim>\<open>_store\<close> are still those of the construction; the
  call leaves the server as it found it but for the round's value in the global and
  refine traces, appended before the schedule is looked at.
\<close>

theorem unknown_schedule_raises:
  assumes "sched cfg \<notin> set known_schedules"
    and "fedex_init cfg random_search = Inr st0"
    and "0 \<le> gamma cfg" and "list_all (valid_feedback st0) fbs"
  shows "update_policy cfg fbs (rounds cfg batches st0) =
           Raised NotImplementedError
             ((rounds cfg batches st0)
                \<lparr> trace_global := trace_global (rounds cfg batches st0) @
                     [np_inner (map (\<lambda>tp. hd (tp_rest tp)) fbs)
                        (map (\<lambda>tp. tp0 tp / sum_list (map tp0 fbs)) fbs)],
                  trace_refine := trace_refine (rounds cfg batches st0) @
                     [np_inner (map (\<lambda>tp. hd (tp_rest tp)) fbs)
                        (map (\<lambda>tp. tp0 tp / sum_list (map tp0 fbs)) fbs)] \<rparr>) \<and>
         \<not> self_stop_exploration (rounds cfg batches st0) \<and>
         self_z (rounds cfg batches st0) = self_z st0 \<and>
         self_theta (rounds cfg batches st0) = self_theta st0 \<and>
         self_store (rounds cfg batches st0) = self_store st0"
proof -
  let ?st = "rounds cfg batches st0"
  from fedex_init_shape[OF assms(2)] have
    i: "well_formed st0" "\<not> self_stop_exploration st0" "self_z st0 \<noteq> []" by simp_all
  from unknown_rounds[OF assms(1) i(2) i(1) i(3), of batches] have
    r: "\<not> self_stop_exploration ?st" "well_formed ?st" "self_z ?st = self_z st0"
       "self_theta ?st = self_theta st0" "self_store ?st = self_store st0"
    by simp_all
  have v: "list_all (valid_feedback ?st) fbs"
    using assms(4) valid_feedback_lengths[of ?st st0] r(3) by (simp add: list_all_iff)
  have z: "self_z ?st \<noteq> []" using r(3) i(3) by simp
  from unknown_schedule_call[OF assms(1) r(1) z r(2) v assms(3)] r show ?thesis by simp
qed

theorem unknown_schedule_raises_witness:
  "sched (example_cfg ''cosine'' False) \<notin> set known_schedules \<and>
   fedex_init (example_cfg ''cosine'' False) example_search = Inr uniform3 \<and>
   0 \<le> gamma (example_cfg ''cosine'' False) \<and>
   list_all (valid_feedback uniform3) [Feedback 1 [1] [2]] \<and>
   update_policy (example_cfg ''cosine'' False) [Feedback 1 [0] [1]] uniform3 =
     Raised NotImplementedError (uniform3\<lparr> trace_global := [1], trace_refine := [1] \<rparr>) \<and>
   update_policy (example_cfg ''cosine'' False) [Feedback 1 [1] [2]]
       (rounds (example_cfg ''cosine'' False) [[Feedback 1 [0] [1]]] uniform3) =
     Raised NotImplementedError (uniform3\<lparr> trace_global := [1, 2], trace_refine := [1, 2] \<rparr>) \<and>
   \<not> self_stop_exploration (rounds (example_cfg ''cosine'' False) [[Feedback 1 [0] [1]]] uniform3)"
proof -
  let ?cfg = "example_cfg ''cosine'' False"
  have 1: "sched ?cfg \<notin> set known_schedules"
    by (simp add: example_cfg_def known_schedules_def)
  have 2: "fedex_init ?cfg example_search = Inr uniform3" by (rule init_uniform3)
  have 3: "0 \<le> gamma ?cfg" by (simp add: example_cfg_def)
  have 4: "list_all (valid_feedback uniform3) [Feedback 1 [0] [1]]"
    and 5: "list_all (valid_feedback uniform3) [Feedback 1 [1] [2]]"
    by (simp_all add: valid_feedback_def uniform3_def)
  have t: "trace_global uniform3 = []" "trace_refine uniform3 = []"
    by (simp_all add: uniform3_def)
  from unknown_schedule_raises[OF 1 2 3 4, of "[]"]
  have a: "update_policy ?cfg [Feedback 1 [0] [1]] uniform3 =
     Raised NotImplementedError (uniform3\<lparr> trace_global := [1], trace_refine := [1] \<rparr>)"
    by (simp add: np_inner_def t)
  from unknown_schedule_raises[OF 1 2 3 5, of "[[Feedback 1 [0] [1]]]"]
  have b: "update_policy ?cfg [Feedback 1 [1] [2]] (rounds ?cfg [[Feedback 1 [0] [1]]] uniform3) =
     Raised NotImplementedError (uniform3\<lparr> trace_global := [1, 2], trace_refine := [1, 2] \<rparr>)"
    and c: "\<not> self_stop_exploration (rounds ?cfg [[Feedback 1 [0] [1]]] uniform3)"
    by (simp_all add: np_inner_def a)
  from 1 2 3 5 a b c show ?thesis by (intro conjI)
qed

subsection \<open>The normalisation invariant\<close>

lemma apply_step_result:
  fixes grad :: "real list"
  assumes "i < length (self_z st)" "i < length (self_theta st)"
    "length grad = length (self_z st ! i)" "self_z st ! i \<noteq> []"
  shows "\<exists>st'. apply_step eta grad i st = Returned st' \<and> normalised st' i \<and>
           self_z st' ! i =
             map (\<lambda>x. x - ln (sum_list (map exp (map2 (\<lambda>zk gk. zk - eta * gk) (self_z st ! i) grad))))
               (map2 (\<lambda>zk gk. zk - eta * gk) (self_z st ! i) grad)"
proof -
  let ?z1 = "map2 (\<lambda>zk gk. zk - eta * gk) (self_z st ! i) grad"
  let ?z2 = "map (\<lambda>zk. zk - ln (sum_list (map exp ?z1))) ?z1"
  let ?st' = "st\<lparr> self_z := (self_z st)[i := ?z2],
                   self_theta := (self_theta st)[i := map exp ?z2] \<rparr>"
  have "length ?z1 = length (self_z st ! i)" using assms(3) by simp
  with assms(4) have ne: "?z1 \<noteq> []" by (metis length_0_conv)
  then have r: "apply_step eta grad i st = Returned ?st'"
    by (simp add: apply_step_def Let_def logsumexp_def)
  from apply_step_normalised[OF r assms(1,2)] have n: "normalised ?st' i" .
  have "self_z ?st' ! i = ?z2" using assms(1) by simp
  with r n show ?thesis by blast
qed

text \<open>
  C2. On a server whose exploration has not stopped: (1) after a call of
  \<^verbatim>\<open>update_policy\<close> that returns, every aspect is normalised, that is, its
  probabilities are the exponentials of its \<^verbatim>\<open>_z\<close> vector, they sum to 1 and
  \<^verbatim>\<open>logsumexp\<close> of the vector is 0; (2) the call does return on a well-formed server
  with a batch that fits it, under the schedules \<^verbatim>\<open>auto\<close>, \<^verbatim>\<open>constant\<close> and
  \<^verbatim>\<open>scale\<close>; (3) for every step size, every gradient and every prior vector, lines
  215 to 217 return with the vector \<open>z - eta \<sqdot> grad\<close> shifted by its
  \<^verbatim>\<open>logsumexp\<close>, and the aspect normalised. Nothing is asked of the sum of the
  exponentials before the call.
\<close>

theorem update_policy_normalised:
  assumes "\<not> self_stop_exploration st"
  shows "(\<forall>st' i. update_policy cfg fbs st = Returned st' \<longrightarrow>
            i < length (self_z st) \<longrightarrow> i < length (self_theta st) \<longrightarrow>
            self_theta st' ! i = map exp (self_z st' ! i) \<and>
            sum_list (map exp (self_z st' ! i)) = 1 \<and>
            logsumexp (self_z st' ! i) = Inr 0) \<and>
         (well_formed st \<and> list_all (valid_feedback st) fbs \<and> 0 \<le> gamma cfg \<and>
          sched cfg \<in> set working_schedules \<longrightarrow>
            (\<exists>st'. update_policy cfg fbs st = Returned st')) \<and>
         (\<forall>eta grad i. i < length (self_z st) \<longrightarrow> i < length (self_theta st) \<longrightarrow>
            length grad = length (self_z st ! i) \<longrightarrow> self_z st ! i \<noteq> [] \<longrightarrow>
            (\<exists>st'. apply_step eta grad i st = Returned st' \<and> normalised st' i \<and>
               self_z st' ! i =
                 map (\<lambda>x. x - ln (sum_list (map exp
                                     (map2 (\<lambda>zk gk. zk - eta * gk) (self_z st ! i) grad))))
                   (map2 (\<lambda>zk gk. zk - eta * gk) (self_z st ! i) grad)))"
proof (intro conjI allI impI)
  fix st' i
  assume "update_policy cfg fbs st = Returned st'" "i < length (self_z st)"
    "i < length (self_theta st)"
  from update_policy_Returned_normalised[OF this(1) assms this(2,3)]
  show "self_theta st' ! i = map exp (self_z st' ! i)"
    and "sum_list (map exp (self_z st' ! i)) = 1"
    and "logsumexp (self_z st' ! i) = Inr 0" by simp_all
next
  assume "well_formed st \<and> list_all (valid_feedback st) fbs \<and> 0 \<le> gamma cfg \<and>
          sched cfg \<in> set working_schedules"
  then have "\<exists>st'. update_policy cfg fbs st = Returned st' \<and> well_formed st'"
    using update_policy_returns[of st fbs cfg] by simp
  then show "\<exists>st'. update_policy cfg fbs st = Returned st'" by blast
next
  fix eta :: real and grad :: "real list" and i
  assume "i < length (self_z st)" "i < length (self_theta st)"
    "length grad = length (self_z st ! i)" "self_z st ! i \<noteq> []"
  then show "\<exists>st'. apply_step eta grad i st = Returned st' \<and> normalised st' i \<and>
               self_z st' ! i =
                 map (\<lambda>x. x - ln (sum_list (map exp
                                     (map2 (\<lambda>zk gk. zk - eta * gk) (self_z st ! i) grad))))
                   (map2 (\<lambda>zk gk. zk - eta * gk) (self_z st ! i) grad)"
    by (rule apply_step_result)
qed


theorem update_policy_normalised_witness:
  "\<not> self_stop_exploration skew3 \<and> well_formed skew3 \<and>
   list_all (valid_feedback skew3) [Feedback 1 [0] [1], Feedback 1 [1] [2], Feedback 1 [2] [2]] \<and>
   0 \<le> gamma (example_cfg ''auto'' False) \<and>
   sched (example_cfg ''auto'' False) \<in> set working_schedules \<and>
   1 < sum_list (map exp (self_z skew3 ! 0)) \<and>
   (\<exists>st'. update_policy (example_cfg ''auto'' False)
            [Feedback 1 [0] [1], Feedback 1 [1] [2], Feedback 1 [2] [2]] skew3 = Returned st' \<and>
      self_theta st' ! 0 = map exp (self_z st' ! 0) \<and>
      sum_list (map exp (self_z st' ! 0)) = 1 \<and>
      logsumexp (self_z st' ! 0) = Inr 0) \<and>
   (\<exists>st'. apply_step 2 [1, 0, 0] 0 skew3 = Returned st' \<and> normalised st' 0 \<and>
      self_z st' ! 0 = map (\<lambda>x. x - ln (sum_list (map exp [- 2, 1, 2]))) [- 2, 1, 2])"
proof -
  let ?cfg = "example_cfg ''auto'' False"
  let ?fbs = "[Feedback 1 [0] [1], Feedback 1 [1] [2], Feedback 1 [2] [2]]"
  have 1: "\<not> self_stop_exploration skew3" and 2: "well_formed skew3"
    and 3: "list_all (valid_feedback skew3) ?fbs"
    by (simp_all add: skew3_def well_formed_def valid_feedback_def)
  have 4: "0 \<le> gamma ?cfg" and 5: "sched ?cfg \<in> set working_schedules"
    by (simp_all add: example_cfg_def working_schedules_def)
  have 6: "1 < sum_list (map exp (self_z skew3 ! 0))"
    by (simp add: skew3_def add_pos_pos)
  note t = update_policy_normalised[OF 1, of ?cfg ?fbs]
  from t 2 3 4 5 obtain st' where r: "update_policy ?cfg ?fbs skew3 = Returned st'" by blast
  have l: "0 < length (self_z skew3)" "0 < length (self_theta skew3)"
    by (simp_all add: skew3_def)
  from t r l have n: "self_theta st' ! 0 = map exp (self_z st' ! 0) \<and>
      sum_list (map exp (self_z st' ! 0)) = 1 \<and> logsumexp (self_z st' ! 0) = Inr 0"
    by blast
  with r have a: "\<exists>st'. update_policy ?cfg ?fbs skew3 = Returned st' \<and>
      self_theta st' ! 0 = map exp (self_z st' ! 0) \<and>
      sum_list (map exp (self_z st' ! 0)) = 1 \<and> logsumexp (self_z st' ! 0) = Inr 0"
    by blast
  have z: "self_z skew3 ! 0 = [0, 1, 2]" by (simp add: skew3_def)
  have "\<exists>st'. apply_step 2 [1, 0, 0] 0 skew3 = Returned st' \<and> normalised st' 0 \<and>
               self_z st' ! 0 =
                 map (\<lambda>x. x - ln (sum_list (map exp
                       (map2 (\<lambda>zk gk. zk - 2 * gk) (self_z skew3 ! 0) [1, 0, 0]))))
                   (map2 (\<lambda>zk gk. zk - 2 * gk) (self_z skew3 ! 0) [1, 0, 0])"
    by (rule t[THEN conjunct2, THEN conjunct2, rule_format]) (simp_all add: skew3_def)
  then have b: "\<exists>st'. apply_step 2 [1, 0, 0] 0 skew3 = Returned st' \<and> normalised st' 0 \<and>
      self_z st' ! 0 = map (\<lambda>x. x - ln (sum_list (map exp [- 2, 1, 2]))) [- 2, 1, 2]"
    by (simp add: z)
  from 1 2 3 4 5 6 a b show ?thesis by (intro conjI)
qed

subsection \<open>A round with the difference option on\<close>

lemma np_inner_zeros: "np_inner (map (\<lambda>x. 0) xs) ws = 0"
proof -
  have "\<And>ws. sum_list (map2 (*) (map (\<lambda>x. 0::real) xs) ws) = 0"
  proof (induction xs)
    case Nil
    show ?case by simp
  next
    case (Cons x xs)
    show ?case using Cons.IH by (cases ws) simp_all
  qed
  then show ?thesis by (simp add: np_inner_def)
qed

lemma baseline_diff_zero:
  assumes "diff cfg" "trace_global st = trace_refine st" "0 \<le> gamma cfg"
  shows "baseline_of cfg st = Inr 0"
proof (cases "trace_refine st = []")
  case True
  then show ?thesis by (simp add: baseline_of_def)
next
  case False
  let ?r = "trace_refine st"
  have m: "map2 (-) ?r ?r = map (\<lambda>x. 0) ?r"
    using map2_minus_self[of "\<lambda>x. x" ?r] by simp
  have "sum_list (map (\<lambda>k. gamma cfg ^ k) (rev [0..<length ?r])) \<noteq> 0"
    using discount_weights_pos[OF assms(3), of "length ?r"] False by simp
  then have "discounted_mean (map (\<lambda>x. 0) ?r) (gamma cfg) = Inr 0"
    by (simp add: discounted_mean_def Let_def np_inner_zeros)
  with False assms(1,2) m show ?thesis
    by (simp add: baseline_of_def np_isub_def)
qed

lemma replicate_update_same: "(replicate n x)[a := x] = replicate n x"
  by (cases "a < n") (simp_all add: list_eq_iff_nth_eq nth_list_update)

lemma gradient_zero:
  "list_all (\<lambda>(idx, s, w). s = b) tuples \<Longrightarrow>
   gradient i theta b tuples (replicate n 0) = Inr g \<Longrightarrow> g = replicate n 0"
proof (induction tuples)
  case Nil
  then show ?case by simp
next
  case (Cons t tuples)
  obtain idx s w where t: "t = (idx, s, w)" by (cases t)
  with Cons.prems(1) have s: "s = b" and rest: "list_all (\<lambda>(idx, s, w). s = b) tuples"
    by simp_all
  from Cons.prems(2) have "gradient i theta b tuples (replicate n 0) = Inr g"
    by (simp add: t s replicate_update_same split: if_splits)
  with rest show ?case by (rule Cons.IH)
qed

lemma map2_step_zero: "map2 (\<lambda>zk gk. zk - eta * gk) z (replicate (length z) 0) = z"
  for z :: "real list"
  by (induction z) simp_all

lemma apply_step_zero:
  assumes "well_formed st" "i < length (self_z st)" "sum_list (map exp (self_z st ! i)) = 1"
  shows "apply_step eta (replicate (length (self_z st ! i)) 0) i st = Returned st"
proof -
  have ne: "self_z st ! i \<noteq> []" using assms(1,2) by (simp add: well_formed_def list_all_length)
  have th: "self_theta st ! i = map exp (self_z st ! i)"
    using assms(1,2) by (simp add: well_formed_def)
  have "st\<lparr> self_z := (self_z st)[i := self_z st ! i],
            self_theta := (self_theta st)[i := map exp (self_z st ! i)] \<rparr> = st"
    by (simp add: th[symmetric])
  then show ?thesis
    using ne by (simp add: apply_step_def Let_def logsumexp_def map2_step_zero assms(3))
qed

lemma update_aspect_inert:
  assumes "well_formed st" "list_all (valid_feedback st) fbs" "i < length (self_z st)"
    "sched cfg \<in> set working_schedules" "sum_list (map exp (self_z st ! i)) = 1"
  shows "\<exists>st'. update_aspect cfg (map tp1 fbs) (map (\<lambda>tp. 0) fbs) w 0 i st = Returned st' \<and>
           well_formed st' \<and> self_z st' = self_z st \<and> self_theta st' = self_theta st"
proof -
  let ?tuples = "zip (map tp1 fbs) (zip (map (\<lambda>tp. 0::real) fbs) w)"
  obtain g where g: "gradient i (self_theta st ! i) 0 ?tuples
             (replicate (length (self_z st ! i)) 0) = Inr g"
    using gradient_valid[OF assms(1,2,3)] by blast
  have "list_all (\<lambda>(idx, s, w). s = (0::real)) ?tuples"
    unfolding list_all_iff
  proof
    fix t assume t: "t \<in> set ?tuples"
    obtain idx :: "nat list" and s' :: real and w' :: real where e: "t = (idx, s', w')"
      by (cases t)
    with t have "(s', w') \<in> set (zip (map (\<lambda>tp. 0) fbs) w)" by (auto dest: set_zip_rightD)
    then have "s' \<in> set (map (\<lambda>tp. 0::real) fbs)" by (rule set_zip_leftD)
    then have "s' = 0" by auto
    with e show "case t of (idx, s, w) \<Rightarrow> s = 0" by simp
  qed
  from gradient_zero[OF this g] have g0: "g = replicate (length (self_z st ! i)) 0" .
  have ist: "i < length (self_store st)" and ie: "i < length (self_eta0 st)"
    and nn: "list_all (\<lambda>s. 0 \<le> s) (self_store st)"
    using assms(1,3) by (simp_all add: well_formed_def)
  obtain d store' where s: "schedule cfg i g (self_store st) = (Inr d, store')"
    and ls: "length store' = length (self_store st)" and ns: "list_all (\<lambda>s. 0 \<le> s) store'"
    and dd: "d = Infinite \<or> (\<exists>x. d = Finite x \<and> 0 < x)"
    using schedule_ok[OF assms(4) ist nn, of g] by blast
  obtain eta where e: "step_size (self_eta0 st) i d = Inr eta"
    using step_size_ok[OF ie dd] by blast
  let ?st1 = "st\<lparr> self_store := store' \<rparr>"
  have wf1: "well_formed ?st1" using assms(1) ls ns by (rule well_formed_store)
  have "apply_step eta (replicate (length (self_z ?st1 ! i)) 0) i ?st1 = Returned ?st1"
    using wf1 by (rule apply_step_zero) (simp_all add: assms(3,5))
  then have ap: "apply_step eta g i ?st1 = Returned ?st1" by (simp add: g0)
  have "update_aspect cfg (map tp1 fbs) (map (\<lambda>tp. 0) fbs) w 0 i st = Returned ?st1"
    unfolding update_aspect_def g by (simp add: s e ap)
  with wf1 show ?thesis by simp
qed

lemma update_loop_inert:
  assumes "sched cfg \<in> set working_schedules"
  shows "well_formed st \<Longrightarrow> list_all (valid_feedback st) fbs \<Longrightarrow>
         list_all (\<lambda>i. i < length (self_z st)) is \<Longrightarrow>
         list_all (\<lambda>z. sum_list (map exp z) = 1) (self_z st) \<Longrightarrow>
         \<exists>st'. update_loop cfg (map tp1 fbs) (map (\<lambda>tp. 0) fbs) w 0 is st = Returned st' \<and>
           well_formed st' \<and> self_z st' = self_z st \<and> self_theta st' = self_theta st"
proof (induction "is" arbitrary: st)
  case Nil
  then show ?case by simp
next
  case (Cons i "is")
  from Cons.prems(3) have i: "i < length (self_z st)" by simp
  with Cons.prems(4) have n: "sum_list (map exp (self_z st ! i)) = 1"
    by (simp add: list_all_length)
  obtain st1 where u: "update_aspect cfg (map tp1 fbs) (map (\<lambda>tp. 0) fbs) w 0 i st = Returned st1"
    and wf1: "well_formed st1" and z1: "self_z st1 = self_z st" and t1: "self_theta st1 = self_theta st"
    using update_aspect_inert[OF Cons.prems(1,2) i assms n] by blast
  have v1: "list_all (valid_feedback st1) fbs"
    using Cons.prems(2) valid_feedback_lengths[of st1 st] z1 by (simp add: list_all_iff)
  have is1: "list_all (\<lambda>i. i < length (self_z st1)) is" using Cons.prems(3) z1 by simp
  have n1: "list_all (\<lambda>z. sum_list (map exp z) = 1) (self_z st1)" using Cons.prems(4) z1 by simp
  from Cons.IH[OF wf1 v1 is1 n1] u z1 t1 show ?case by simp
qed

lemma diff_round_inert:
  assumes "diff cfg" "well_formed st" "list_all (\<lambda>z. sum_list (map exp z) = 1) (self_z st)"
    "trace_global st = trace_refine st" "list_all (valid_feedback st) fbs" "0 \<le> gamma cfg"
    "sched cfg \<in> set working_schedules" "\<not> self_stop_exploration st"
  shows "\<exists>st'. update_policy cfg fbs st = Returned st' \<and>
           self_z st' = self_z st \<and> self_theta st' = self_theta st"
proof -
  let ?l = "map (\<lambda>tp. hd (tp_rest tp)) fbs"
  let ?w = "map (\<lambda>tp. tp0 tp / sum_list (map tp0 fbs)) fbs"
  let ?st1 = "st\<lparr> trace_global := trace_global st @ [np_inner ?l ?w],
                    trace_refine := trace_refine st @ [np_inner ?l ?w] \<rparr>"
  have fb: "list_all (\<lambda>tp. 0 < tp0 tp \<and> tp_rest tp \<noteq> []) fbs"
    using assms(5) by (simp add: list_all_iff valid_feedback_def)
  have len: "length (trace_global st) = length (trace_refine st)" using assms(4) by simp
  obtain b where inp: "policy_inputs cfg fbs st = Inr (map tp1 fbs, ?w, ?l, ?l, b)"
    using policy_inputs_ok[OF fb assms(6) len] by blast
  from policy_inputs_InrD[OF inp] baseline_diff_zero[OF assms(1,4,6)] have b: "b = 0" by simp
  have sg: "signal cfg ?l ?l = map (\<lambda>tp. 0) fbs"
    using assms(1) by (simp add: signal_def map2_minus_self)
  have wf1: "well_formed ?st1" using assms(2) by (simp add: well_formed_def)
  have vf1: "list_all (valid_feedback ?st1) fbs"
    using assms(5) by (simp add: list_all_iff valid_feedback_def)
  let ?is = "[0..<min (length (self_z ?st1)) (length (self_theta ?st1))]"
  have is1: "list_all (\<lambda>i. i < length (self_z ?st1)) ?is" by (simp add: list_all_iff)
  have n1: "list_all (\<lambda>z. sum_list (map exp z) = 1) (self_z ?st1)" using assms(3) by simp
  from update_loop_inert[OF assms(7) wf1 vf1 is1 n1, of ?w] obtain st2 where
    l: "update_loop cfg (map tp1 fbs) (map (\<lambda>tp. 0) fbs) ?w 0 ?is ?st1 = Returned st2"
    and wf2: "well_formed st2" and z2: "self_z st2 = self_z st" and t2: "self_theta st2 = self_theta st"
    by auto
  obtain st3 where f: "finish_round cfg st2 = Returned st3"
    using finish_round_ok[OF wf2, of cfg] by blast
  with finish_round_keeps(3,4)[of cfg st2] z2 t2
  have k: "self_z st3 = self_z st" "self_theta st3 = self_theta st" by simp_all
  from l have l': "update_loop cfg (map tp1 fbs) (map (\<lambda>tp. 0) fbs) ?w 0
      [0..<min (length (self_z st)) (length (self_theta st))] ?st1 = Returned st2"
    by simp
  have "update_policy cfg fbs st = Returned st3"
    unfolding update_policy_def inp using assms(8) by (simp add: Let_def explore_def sg b l' f)
  with k show ?thesis by blast
qed


text \<open>
  C1. The signal of a feedback tuple should be the loss after minus the loss before when
  the difference option is configured, so that tuples with different losses move the
  policy differently. In \<^verbatim>\<open>update_policy\<close> both loss arrays are read from element 2
  of the tuples (the line stands under a comment that the loss before is still to be
  acquired), while line 195 still computes \<^verbatim>\<open>after - before\<close>. So with the option on,
  on every well-formed, normalised server with equal loss traces, as the constructor
  builds it, and for every batch that fits it, whatever its losses: the gradient of every
  aspect is zero, and the call returns with \<^verbatim>\<open>_z\<close> and \<^verbatim>\<open>_theta\<close> as they were.
\<close>

theorem diff_option_ignores_losses:
  assumes "diff cfg" and "well_formed st"
    and "list_all (\<lambda>z. sum_list (map exp z) = 1) (self_z st)"
    and "trace_global st = trace_refine st" and "list_all (valid_feedback st) fbs"
    and "0 \<le> gamma cfg" and "sched cfg \<in> set working_schedules"
    and "\<not> self_stop_exploration st" and "i < length (self_z st)"
  shows "round_gradient cfg fbs st i = Inr (replicate (length (self_z st ! i)) 0) \<and>
         (\<exists>st'. update_policy cfg fbs st = Returned st' \<and>
                self_z st' = self_z st \<and> self_theta st' = self_theta st)"
proof
  let ?l = "map (\<lambda>tp. hd (tp_rest tp)) fbs"
  let ?w = "map (\<lambda>tp. tp0 tp / sum_list (map tp0 fbs)) fbs"
  have fb: "list_all (\<lambda>tp. 0 < tp0 tp \<and> tp_rest tp \<noteq> []) fbs"
    using assms(5) by (simp add: list_all_iff valid_feedback_def)
  have len: "length (trace_global st) = length (trace_refine st)" using assms(4) by simp
  obtain b where inp: "policy_inputs cfg fbs st = Inr (map tp1 fbs, ?w, ?l, ?l, b)"
    using policy_inputs_ok[OF fb assms(6) len] by blast
  from policy_inputs_InrD[OF inp] baseline_diff_zero[OF assms(1,4,6)] have b: "b = 0" by simp
  have sg: "signal cfg ?l ?l = map (\<lambda>tp. 0) fbs"
    using assms(1) by (simp add: signal_def map2_minus_self)
  let ?tuples = "zip (map tp1 fbs) (zip (map (\<lambda>tp. 0::real) fbs) ?w)"
  obtain g where g: "gradient i (self_theta st ! i) 0 ?tuples
             (replicate (length (self_z st ! i)) 0) = Inr g"
    using gradient_valid[OF assms(2,5,9)] by blast
  have "list_all (\<lambda>(idx, s, w). s = (0::real)) ?tuples"
    unfolding list_all_iff
  proof
    fix t assume t: "t \<in> set ?tuples"
    obtain idx :: "nat list" and s' :: real and w' :: real where e: "t = (idx, s', w')"
      by (cases t)
    with t have "(s', w') \<in> set (zip (map (\<lambda>tp. 0) fbs) ?w)" by (auto dest: set_zip_rightD)
    then have "s' \<in> set (map (\<lambda>tp. 0::real) fbs)" by (rule set_zip_leftD)
    then have "s' = 0" by auto
    with e show "case t of (idx, s, w) \<Rightarrow> s = 0" by simp
  qed
  from gradient_zero[OF this g] g
  show "round_gradient cfg fbs st i = Inr (replicate (length (self_z st ! i)) 0)"
    unfolding round_gradient_def inp by (simp add: sg b)
next
  show "\<exists>st'. update_policy cfg fbs st = Returned st' \<and>
                self_z st' = self_z st \<and> self_theta st' = self_theta st"
    using assms(1-8) by (rule diff_round_inert)
qed

theorem diff_option_ignores_losses_witness:
  "diff (example_cfg ''constant'' True) \<and> well_formed uniform3 \<and>
   list_all (\<lambda>z. sum_list (map exp z) = 1) (self_z uniform3) \<and>
   trace_global uniform3 = trace_refine uniform3 \<and>
   list_all (valid_feedback uniform3) [Feedback 1 [0] [1], Feedback 1 [1] [2], Feedback 1 [2] [2]] \<and>
   0 \<le> gamma (example_cfg ''constant'' True) \<and>
   sched (example_cfg ''constant'' True) \<in> set working_schedules \<and>
   \<not> self_stop_exploration uniform3 \<and> 0 < length (self_z uniform3) \<and>
   fedex_init (example_cfg ''constant'' True) example_search = Inr uniform3 \<and>
   round_gradient (example_cfg ''constant'' True)
     [Feedback 1 [0] [1], Feedback 1 [1] [2], Feedback 1 [2] [2]] uniform3 0 = Inr [0, 0, 0] \<and>
   (\<exists>st'. update_policy (example_cfg ''constant'' True)
            [Feedback 1 [0] [1], Feedback 1 [1] [2], Feedback 1 [2] [2]] uniform3 = Returned st' \<and>
      self_z st' = self_z uniform3 \<and> self_theta st' = self_theta uniform3)"
proof -
  let ?cfg = "example_cfg ''constant'' True"
  let ?fbs = "[Feedback 1 [0] [1], Feedback 1 [1] [2], Feedback 1 [2] [2]]"
  have 1: "diff ?cfg" and 6: "0 \<le> gamma ?cfg" and 7: "sched ?cfg \<in> set working_schedules"
    by (simp_all add: example_cfg_def working_schedules_def)
  have 3: "list_all (\<lambda>z. sum_list (map exp z) = 1) (self_z uniform3)"
    by (simp add: uniform3_def exp_minus)
  have 4: "trace_global uniform3 = trace_refine uniform3"
    and 5: "list_all (valid_feedback uniform3) ?fbs"
    and 8: "\<not> self_stop_exploration uniform3" and 9: "0 < length (self_z uniform3)"
    by (simp_all add: uniform3_def valid_feedback_def)
  have z: "replicate (length (self_z uniform3 ! 0)) (0::real) = [0, 0, 0]"
    by (simp add: uniform3_def numeral_3_eq_3)
  note t = diff_option_ignores_losses[OF 1 well_formed_uniform3 3 4 5 6 7 8 9]
  from t have a: "round_gradient ?cfg ?fbs uniform3 0 = Inr [0, 0, 0]" by (simp add: z)
  from t have b: "\<exists>st'. update_policy ?cfg ?fbs uniform3 = Returned st' \<and>
      self_z st' = self_z uniform3 \<and> self_theta st' = self_theta uniform3" by simp
  from 1 well_formed_uniform3 3 4 5 6 7 8 9 init_uniform3[of "''constant''" True] a b
  show ?thesis by (intro conjI)
qed

subsection \<open>Scenario A where the round does not work\<close>

text \<open>
  C6. From the uniform policy over three candidates, one round in which arm 0 has the
  strictly lower loss should give \<open>prob[0] > prob[1] = prob[2]\<close>. On the constructed
  server and the batch \<^verbatim>\<open>(1, [0], 1)\<close>, \<^verbatim>\<open>(1, [1], 2)\<close>, \<^verbatim>\<open>(1, [2], 2)\<close> it does not:
  under the schedules \<^verbatim>\<open>adaptive\<close> and \<^verbatim>\<open>aggressive\<close> the call ends with NameError
  (the undefined \<^verbatim>\<open>norm\<close>) and the probabilities are untouched; with the difference
  option on (schedule \<^verbatim>\<open>constant\<close>) the call returns with the probabilities
  \<open>[1/3, 1/3, 1/3]\<close> it started from.
\<close>

theorem scenario_A_fails:
  "update_policy (example_cfg ''adaptive'' False)
     [Feedback 1 [0] [1], Feedback 1 [1] [2], Feedback 1 [2] [2]] uniform3
     = Raised NameError (uniform3\<lparr> trace_global := [5/3], trace_refine := [5/3] \<rparr>) \<and>
   update_policy (example_cfg ''aggressive'' False)
     [Feedback 1 [0] [1], Feedback 1 [1] [2], Feedback 1 [2] [2]] uniform3
     = Raised NameError (uniform3\<lparr> trace_global := [5/3], trace_refine := [5/3] \<rparr>) \<and>
   raised (update_policy (example_cfg ''constant'' True)
     [Feedback 1 [0] [1], Feedback 1 [1] [2], Feedback 1 [2] [2]] uniform3) = None \<and>
   self_theta (state_of (update_policy (example_cfg ''constant'' True)
     [Feedback 1 [0] [1], Feedback 1 [1] [2], Feedback 1 [2] [2]] uniform3))
     = [[1/3, 1/3, 1/3]]"
proof -
  let ?fbs = "[Feedback 1 [0] [1], Feedback 1 [1] [2], Feedback 1 [2] [2]]"
  have inp: "\<And>s. policy_inputs (example_cfg s False) ?fbs uniform3 =
      Inr ([[0], [1], [2]], [1/3, 1/3, 1/3], [1, 2, 2], [1, 2, 2], 0)"
    by (simp add: policy_inputs_def normalised_weight_def tp2_def baseline_of_def uniform3_def)
  have a: "update_policy (example_cfg ''adaptive'' False) ?fbs uniform3
      = Raised NameError (uniform3\<lparr> trace_global := [5/3], trace_refine := [5/3] \<rparr>)"
    unfolding update_policy_def inp
    by (simp add: np_inner_def uniform3_def explore_def update_aspect_def signal_def
        example_cfg_def numeral_3_eq_3 exp_minus schedule_def)
  have b: "update_policy (example_cfg ''aggressive'' False) ?fbs uniform3
      = Raised NameError (uniform3\<lparr> trace_global := [5/3], trace_refine := [5/3] \<rparr>)"
    unfolding update_policy_def inp
    by (simp add: np_inner_def uniform3_def explore_def update_aspect_def signal_def
        example_cfg_def numeral_3_eq_3 exp_minus schedule_def)
  let ?cfg = "example_cfg ''constant'' True"
  have 1: "diff ?cfg" and 6: "0 \<le> gamma ?cfg" and 7: "sched ?cfg \<in> set working_schedules"
    by (simp_all add: example_cfg_def working_schedules_def)
  have 3: "list_all (\<lambda>z. sum_list (map exp z) = 1) (self_z uniform3)"
    by (simp add: uniform3_def exp_minus)
  have 4: "trace_global uniform3 = trace_refine uniform3"
    and 5: "list_all (valid_feedback uniform3) ?fbs"
    and 8: "\<not> self_stop_exploration uniform3"
    by (simp_all add: uniform3_def valid_feedback_def)
  from diff_round_inert[OF 1 well_formed_uniform3 3 4 5 6 7 8] obtain st' where
    r: "update_policy ?cfg ?fbs uniform3 = Returned st'" and t: "self_theta st' = self_theta uniform3"
    by blast
  have u: "self_theta uniform3 = [[1/3, 1/3, 1/3]]" by (simp add: uniform3_def exp_minus)
  from r t u have c: "raised (update_policy ?cfg ?fbs uniform3) = None"
    and d: "self_theta (state_of (update_policy ?cfg ?fbs uniform3)) = [[1/3, 1/3, 1/3]]"
    by simp_all
  from a b c d show ?thesis by (intro conjI)
qed

end
